theory Spec2Isabelle
  imports Complex_Main "HOL-Library.AList"
begin

section \<open>Python values and errors\<close>

text \<open>
  Exceptions of the Python source are values: every function that can raise returns
  \<open>py_error + 'a\<close>, with \<open>Inl\<close> the exception.
\<close>

datatype py_error =
    TypeError
  | KeyError string
  | IndexError
  | AttributeError
  | RuntimeError string
  | IOError string

text \<open>
  The configuration is a nested mapping of string keys to scalars, lists and mappings, the
  values that \<open>json.dump\<close> writes and \<open>json.load\<close> reads back. A \<open>dict\<close> is
  an association list in insertion order; Python dictionaries have no duplicate keys, which
  \<open>wf_json\<close> states.
\<close>

datatype json =
    JNull
  | JBool bool
  | JInt int
  | JFloat real
  | JStr string
  | JList "json list"
  | JDict "(string \<times> json) list"

fun wf_json :: "json \<Rightarrow> bool" where
  "wf_json (JDict al) = (distinct (map fst al) \<and> (\<forall>v \<in> set (map snd al). wf_json v))"
| "wf_json (JList xs) = (\<forall>x \<in> set xs. wf_json x)"
| "wf_json _ = True"

fun isinstance_dict :: "json \<Rightarrow> bool" where
  "isinstance_dict (JDict al) = True"
| "isinstance_dict _ = False"

text \<open>\<open>startswith\<close> and the substring test \<open>needle in haystack\<close> of Python strings.\<close>

fun startswith :: "string \<Rightarrow> string \<Rightarrow> bool" where
  "startswith s [] = True"
| "startswith [] (p # ps) = False"
| "startswith (c # cs) (p # ps) = (c = p \<and> startswith cs ps)"

fun str_contains :: "string \<Rightarrow> string \<Rightarrow> bool" where
  "str_contains [] needle = (needle = [])"
| "str_contains (c # cs) needle = (startswith (c # cs) needle \<or> str_contains cs needle)"

text \<open>
  The three operations the configuration code applies to a value whose type it has not
  checked: \<open>k in obj\<close>, \<open>obj[k]\<close> and \<open>obj[k] = v\<close>, for a string \<open>k\<close>.
  On a string \<open>in\<close> is the substring test, on a list it is membership; on numbers,
  booleans and \<open>None\<close> it raises \<open>TypeError\<close>. Indexing or assigning with a string index
  raises \<open>TypeError\<close> on everything but a dictionary.
\<close>

fun py_contains :: "json \<Rightarrow> string \<Rightarrow> py_error + bool" where
  "py_contains (JDict al) k = Inr (k \<in> set (map fst al))"
| "py_contains (JStr s) k = Inr (str_contains s k)"
| "py_contains (JList xs) k = Inr (JStr k \<in> set xs)"
| "py_contains _ k = Inl TypeError"

fun py_getitem :: "json \<Rightarrow> string \<Rightarrow> py_error + json" where
  "py_getitem (JDict al) k = (case map_of al k of None \<Rightarrow> Inl (KeyError k) | Some v \<Rightarrow> Inr v)"
| "py_getitem _ k = Inl TypeError"

fun py_setitem :: "json \<Rightarrow> string \<Rightarrow> json \<Rightarrow> py_error + json" where
  "py_setitem (JDict al) k v = Inr (JDict (AList.update k v al))"
| "py_setitem _ k v = Inl TypeError"

text \<open>\<open>key.split('.')\<close>: never the empty list; \<open>''.split('.') = ['']\<close>.\<close>

fun split_dot :: "string \<Rightarrow> string list" where
  "split_dot [] = [[]]"
| "split_dot (c # cs) =
     (if c = CHR ''.'' then [] # split_dot cs
      else (case split_dot cs of [] \<Rightarrow> [[c]] | w # ws \<Rightarrow> (c # w) # ws))"


section \<open>config.py: the configuration store\<close>

text \<open>
  \<open>load_default_config\<close>; the API key is read from the process environment and is a
  parameter here.
\<close>

definition load_default_config :: "string \<Rightarrow> json" where
  "load_default_config api_key = JDict
     [(''openrouter'', JDict
         [(''api_key'', JStr api_key),
          (''base_url'', JStr ''https://openrouter.ai/api/v1''),
          (''model'', JStr ''anthropic/claude-3-sonnet''),
          (''max_tokens'', JInt 1000)]),
      (''voice'', JDict
         [(''engine'', JStr ''pyttsx3''),
          (''rate'', JInt 150),
          (''volume'', JFloat 0.8),
          (''voice_id'', JInt 0),
          (''language'', JStr ''pt-br'')]),
      (''speech'', JDict
         [(''language'', JStr ''pt-BR''),
          (''timeout'', JInt 5),
          (''phrase_timeout'', JInt 1),
          (''energy_threshold'', JInt 300)]),
      (''camera'', JDict
         [(''device_id'', JInt 0),
          (''width'', JInt 640),
          (''height'', JInt 480),
          (''fps'', JInt 30)]),
      (''ui'', JDict
         [(''theme'', JStr ''dark''),
          (''accent_color'', JStr ''#00D4FF''),
          (''background_color'', JStr ''#0A0A0A''),
          (''text_color'', JStr ''#FFFFFF''),
          (''window_size'', JStr ''1200x800''),
          (''transparency'', JFloat 0.95)]),
      (''languages'', JDict
         [(''supported'', JList [JStr ''pt-BR'', JStr ''en-US'', JStr ''es-ES'', JStr ''fr-FR'', JStr ''de-DE'']),
          (''default'', JStr ''pt-BR'')]),
      (''features'', JDict
         [(''voice_activation'', JBool True),
          (''wake_word'', JStr ''jarvis''),
          (''auto_listen'', JBool True),
          (''face_recognition'', JBool False),
          (''gesture_control'', JBool False),
          (''home_automation'', JBool False)])]"

text \<open>
  \<open>deep_merge(default, user)\<close>: for each item of \<open>user\<close> in order, merge recursively
  when both sides hold a dictionary under the key, otherwise overwrite (or append) the key.
  The in-place update of \<open>default[key]\<close> keeps the key's position.
\<close>

fun deep_merge :: "(string \<times> json) list \<Rightarrow> (string \<times> json) list \<Rightarrow> (string \<times> json) list" where
  "deep_merge dflt [] = dflt"
| "deep_merge dflt ((key, JDict u) # rest) =
     (case map_of dflt key of
        Some (JDict d) \<Rightarrow> deep_merge (AList.update key (JDict (deep_merge d u)) dflt) rest
      | _ \<Rightarrow> deep_merge (AList.update key (JDict u) dflt) rest)"
| "deep_merge dflt ((key, v) # rest) = deep_merge (AList.update key v dflt) rest"

text \<open>
  \<open>merge_config\<close>: \<open>user.items()\<close> raises \<open>AttributeError\<close> when the loaded document
  is not a mapping.
\<close>

fun merge_config :: "json \<Rightarrow> json \<Rightarrow> py_error + json" where
  "merge_config (JDict d) (JDict u) = Inr (JDict (deep_merge d u))"
| "merge_config cfg u = Inl AttributeError"

text \<open>
  The user file \<open>config/user_config.json\<close>: absent, unreadable as JSON, or a document.
  \<open>json.dump\<close> followed by \<open>json.load\<close> gives back the value that was written.
\<close>

datatype user_file = NoFile | Invalid | Document json

fun load_user_config :: "json \<Rightarrow> user_file \<Rightarrow> json" where
  "load_user_config cfg NoFile = cfg"
| "load_user_config cfg Invalid = cfg"
| "load_user_config cfg (Document u) =
     (case merge_config cfg u of Inl e \<Rightarrow> cfg | Inr merged \<Rightarrow> merged)"

definition save_user_config :: "json \<Rightarrow> user_file" where
  "save_user_config cfg = Document cfg"

text \<open>\<open>Config.__init__\<close>: the defaults, then the user file merged over them.\<close>

definition Config_init :: "string \<Rightarrow> user_file \<Rightarrow> json" where
  "Config_init api_key file = load_user_config (load_default_config api_key) file"

text \<open>
  \<open>Config.get\<close>: the loop over the path segments. The indexing \<open>value[k]\<close> is the
  operation that could raise; it is reached only under the guard.
\<close>

fun get_loop :: "json \<Rightarrow> string list \<Rightarrow> json \<Rightarrow> py_error + json" where
  "get_loop v [] dflt = Inr v"
| "get_loop v (k # ks) dflt =
     (if isinstance_dict v \<and> py_contains v k = Inr True
      then (case py_getitem v k of Inl e \<Rightarrow> Inl e | Inr v' \<Rightarrow> get_loop v' ks dflt)
      else Inr dflt)"

definition Config_get :: "json \<Rightarrow> string \<Rightarrow> json \<Rightarrow> py_error + json" where
  "Config_get cfg key dflt = get_loop cfg (split_dot key) dflt"

text \<open>
  \<open>Config.set\<close>: the loop over \<open>keys[:-1]\<close>, then the assignment to \<open>keys[-1]\<close>.
  The nested dictionary is mutated in place; the model rebuilds the parent around the
  updated child. Nothing checks that the value under a segment is a dictionary.
\<close>

fun set_loop :: "json \<Rightarrow> string list \<Rightarrow> json \<Rightarrow> py_error + json" where
  "set_loop cfg [] v = Inl IndexError"
| "set_loop cfg [k] v = py_setitem cfg k v"
| "set_loop cfg (k # k' # ks) v =
     (case py_contains cfg k of
        Inl e \<Rightarrow> Inl e
      | Inr present \<Rightarrow>
          (case (if present then Inr cfg else py_setitem cfg k (JDict [])) of
             Inl e \<Rightarrow> Inl e
           | Inr cfg1 \<Rightarrow>
               (case py_getitem cfg1 k of
                  Inl e \<Rightarrow> Inl e
                | Inr child \<Rightarrow>
                    (case set_loop child (k' # ks) v of
                       Inl e \<Rightarrow> Inl e
                     | Inr child' \<Rightarrow> py_setitem cfg1 k child'))))"

definition Config_set :: "json \<Rightarrow> string \<Rightarrow> json \<Rightarrow> py_error + json" where
  "Config_set cfg key v = set_loop cfg (split_dot key) v"

text \<open>
  The reading of a dot path in the words of the specification: the value stored under the
  path, if every segment is present and every value on the way is a mapping.
\<close>

fun stored_value :: "json \<Rightarrow> string list \<Rightarrow> json option" where
  "stored_value v [] = Some v"
| "stored_value (JDict al) (k # ks) =
     (case map_of al k of None \<Rightarrow> None | Some v' \<Rightarrow> stored_value v' ks)"
| "stored_value v (k # ks) = None"

section \<open>Python strings\<close>

text \<open>
  A Python string is a list of code points. The texts of this program (its keywords, prompts
  and responses) lie in the Latin-1 repertoire, and a \<open>char\<close> here is one code point
  from U+0000 to U+00FF; \<open>CHR 0xE2\<close> is the letter a with circumflex. On that repertoire
  \<open>str.lower()\<close> maps A to Z and the capital letters U+00C0 to U+00DE (without the
  multiplication sign U+00D7) to their small letters, and leaves every other code point.
\<close>

definition lower_table :: "(char \<times> char) list" where
  "lower_table =
     [(CHR ''A'', CHR ''a''), (CHR ''B'', CHR ''b''), (CHR ''C'', CHR ''c''), (CHR ''D'', CHR ''d''),
      (CHR ''E'', CHR ''e''), (CHR ''F'', CHR ''f''), (CHR ''G'', CHR ''g''), (CHR ''H'', CHR ''h''),
      (CHR ''I'', CHR ''i''), (CHR ''J'', CHR ''j''), (CHR ''K'', CHR ''k''), (CHR ''L'', CHR ''l''),
      (CHR ''M'', CHR ''m''), (CHR ''N'', CHR ''n''), (CHR ''O'', CHR ''o''), (CHR ''P'', CHR ''p''),
      (CHR ''Q'', CHR ''q''), (CHR ''R'', CHR ''r''), (CHR ''S'', CHR ''s''), (CHR ''T'', CHR ''t''),
      (CHR ''U'', CHR ''u''), (CHR ''V'', CHR ''v''), (CHR ''W'', CHR ''w''), (CHR ''X'', CHR ''x''),
      (CHR ''Y'', CHR ''y''), (CHR ''Z'', CHR ''z''), (CHR 0xC0, CHR 0xE0), (CHR 0xC1, CHR 0xE1),
      (CHR 0xC2, CHR 0xE2), (CHR 0xC3, CHR 0xE3), (CHR 0xC4, CHR 0xE4), (CHR 0xC5, CHR 0xE5),
      (CHR 0xC6, CHR 0xE6), (CHR 0xC7, CHR 0xE7), (CHR 0xC8, CHR 0xE8), (CHR 0xC9, CHR 0xE9),
      (CHR 0xCA, CHR 0xEA), (CHR 0xCB, CHR 0xEB), (CHR 0xCC, CHR 0xEC), (CHR 0xCD, CHR 0xED),
      (CHR 0xCE, CHR 0xEE), (CHR 0xCF, CHR 0xEF), (CHR 0xD0, CHR 0xF0), (CHR 0xD1, CHR 0xF1),
      (CHR 0xD2, CHR 0xF2), (CHR 0xD3, CHR 0xF3), (CHR 0xD4, CHR 0xF4), (CHR 0xD5, CHR 0xF5),
      (CHR 0xD6, CHR 0xF6), (CHR 0xD8, CHR 0xF8), (CHR 0xD9, CHR 0xF9), (CHR 0xDA, CHR 0xFA),
      (CHR 0xDB, CHR 0xFB), (CHR 0xDC, CHR 0xFC), (CHR 0xDD, CHR 0xFD), (CHR 0xDE, CHR 0xFE)]"

definition lower_char :: "char \<Rightarrow> char" where
  "lower_char c = (case map_of lower_table c of None \<Rightarrow> c | Some l \<Rightarrow> l)"

definition lower :: "string \<Rightarrow> string" where
  "lower s = map lower_char s"

text \<open>\<open>str.isspace\<close> on one code point, and \<open>str.strip()\<close>.\<close>

definition is_space :: "char \<Rightarrow> bool" where
  "is_space c = (c \<in> set [CHR 0x09, CHR 0x0A, CHR 0x0B, CHR 0x0C, CHR 0x0D, CHR 0x1C, CHR 0x1D,
                            CHR 0x1E, CHR 0x1F, CHR 0x20, CHR 0x85, CHR 0xA0])"

definition strip :: "string \<Rightarrow> string" where
  "strip s = rev (dropWhile is_space (rev (dropWhile is_space s)))"

section \<open>openrouter_client.py: the AI client\<close>

record message =
  role :: string
  content :: string

text \<open>
  What the HTTP round trip of one request yields: \<open>requests.post\<close> or
  \<open>raise_for_status\<close> raises a \<open>RequestException\<close>, \<open>response.json()\<close> raises a
  \<open>JSONDecodeError\<close>, something else raises, or a JSON body is parsed.
\<close>

datatype http_outcome =
    RequestException
  | JSONDecodeError
  | UnexpectedError
  | Body json

text \<open>\<open>len(obj)\<close> and \<open>obj[0]\<close> on a parsed JSON value, and \<open>obj.strip()\<close>.\<close>

fun py_len :: "json \<Rightarrow> py_error + nat" where
  "py_len (JList xs) = Inr (length xs)"
| "py_len (JDict al) = Inr (length al)"
| "py_len (JStr s) = Inr (length s)"
| "py_len _ = Inl TypeError"

fun py_first :: "json \<Rightarrow> py_error + json" where
  "py_first (JList []) = Inl IndexError"
| "py_first (JList (x # xs)) = Inr x"
| "py_first (JStr []) = Inl IndexError"
| "py_first (JStr (c # cs)) = Inr (JStr [c])"
| "py_first (JDict al) = Inl (KeyError ''0'')"
| "py_first _ = Inl TypeError"

fun py_strip :: "json \<Rightarrow> py_error + string" where
  "py_strip (JStr s) = Inr (strip s)"
| "py_strip _ = Inl AttributeError"

definition bind_result :: "'e + 'a \<Rightarrow> ('a \<Rightarrow> 'e + 'b) \<Rightarrow> 'e + 'b" where
  "bind_result m f = (case m of Inl e \<Rightarrow> Inl e | Inr x \<Rightarrow> f x)"

definition fallback_responses :: "(string \<times> string) list" where
  "fallback_responses =
     [(''pt-BR'',
        ''Desculpe, estou com dificuldades para processar sua solicita'' @ [CHR 0xE7] @ [CHR 0xE3] @ ''o no momento. Tente novamente em alguns instantes.''),
      (''en-US'',
        ''Sorry, I'm having trouble processing your request right now. Please try again in a moment.''),
      (''es-ES'',
        ''Lo siento, tengo problemas para procesar tu solicitud en este momento. Int'' @ [CHR 0xE9] @ ''ntalo de nuevo en unos momentos.''),
      (''fr-FR'',
        ''D'' @ [CHR 0xE9] @ ''sol'' @ [CHR 0xE9] @ '', j'ai des difficult'' @ [CHR 0xE9] @ ''s '' @ [CHR 0xE0] @ '' traiter votre demande en ce moment. Veuillez r'' @ [CHR 0xE9] @ ''essayer dans quelques instants.''),
      (''de-DE'',
        ''Entschuldigung, ich habe gerade Schwierigkeiten, Ihre Anfrage zu bearbeiten. Versuchen Sie es in einem Moment noch einmal.'')]"

text \<open>\<open>fallback_responses.get(language, fallback_responses['en-US'])\<close>.\<close>

definition get_fallback_response :: "string \<Rightarrow> string" where
  "get_fallback_response language =
     (case map_of fallback_responses language of
        Some r \<Rightarrow> r
      | None \<Rightarrow> (case map_of fallback_responses ''en-US'' of Some r \<Rightarrow> r | None \<Rightarrow> []))"

text \<open>
  The part of \<open>chat_completion\<close> after \<open>response.json()\<close>: \<open>None\<close> is the \<open>else\<close>
  branch (no usable \<open>choices\<close>), \<open>Inl\<close> an exception raised on the way.
\<close>

definition read_choices :: "json \<Rightarrow> py_error + string option" where
  "read_choices result =
     bind_result (py_contains result ''choices'') (\<lambda>present.
       if \<not> present then Inr None
       else bind_result (py_getitem result ''choices'') (\<lambda>choices.
         bind_result (py_len choices) (\<lambda>n.
           if \<not> n > 0 then Inr None
           else bind_result (py_first choices) (\<lambda>choice.
             bind_result (py_getitem choice ''message'') (\<lambda>msg.
               bind_result (py_getitem msg ''content'') (\<lambda>c.
                 bind_result (py_strip c) (\<lambda>s. Inr (Some s))))))))"

text \<open>
  \<open>chat_completion\<close>: every \<open>except\<close> clause and the \<open>else\<close> branch return the
  fallback for the language. The first argument is the outcome of the round trip for this
  request.
\<close>

definition chat_completion :: "http_outcome \<Rightarrow> message list \<Rightarrow> string \<Rightarrow> string" where
  "chat_completion outcome messages language =
     (case outcome of
        RequestException \<Rightarrow> get_fallback_response language
      | JSONDecodeError \<Rightarrow> get_fallback_response language
      | UnexpectedError \<Rightarrow> get_fallback_response language
      | Body result \<Rightarrow>
          (case read_choices result of
             Inr (Some s) \<Rightarrow> s
           | Inr None \<Rightarrow> get_fallback_response language
           | Inl e \<Rightarrow> get_fallback_response language))"




section \<open>camera_manager.py: the camera\<close>

text \<open>
  Exceptions that reach the coordinator carry a message, which \<open>str(e)\<close> reads:
  the \<open>RuntimeError\<close>s of the camera manager and the error of \<open>cv2.imwrite\<close>.
\<close>

datatype exn = RuntimeError string | Cv2Error string

fun str_exn :: "exn \<Rightarrow> string" where
  "str_exn (RuntimeError m) = m"
| "str_exn (Cv2Error m) = m"

type_synonym frame = "nat list"

record camera_manager =
  is_active :: bool
  is_recording :: bool
  current_frame :: "frame option"

text \<open>What \<open>cv2.imwrite\<close> does with a file: writes it, writes nothing, or raises.\<close>

datatype imwrite_outcome = Written | NotWritten | Raised string

text \<open>
  What the program does not decide: the responses of the network, of the devices and of the
  libraries. \<open>strftime\<close> formats the time of the clock for a file name.
\<close>

record world =
  http_post :: "message list \<Rightarrow> http_outcome"
  device_opens :: bool
  imwrite :: imwrite_outcome
  strftime :: "nat \<Rightarrow> string"
  gtts_available :: bool
  synthesis_fails :: bool

text \<open>
  \<open>start_camera\<close>: nothing to do when active; otherwise the device is opened, and on
  success the capture thread is started. Its result is whether the camera runs.
\<close>

definition start_camera :: "world \<Rightarrow> camera_manager \<Rightarrow> bool \<times> camera_manager" where
  "start_camera w cam =
     (if is_active cam then (True, cam)
      else if \<not> device_opens w then (False, cam)
      else (True, cam\<lparr>is_active := True\<rparr>))"

definition stop_camera :: "camera_manager \<Rightarrow> camera_manager" where
  "stop_camera cam =
     (if \<not> is_active cam then cam
      else cam\<lparr>is_active := False, is_recording := False, current_frame := None\<rparr>)"

definition get_current_frame :: "camera_manager \<Rightarrow> frame option" where
  "get_current_frame cam = current_frame cam"

text \<open>
  \<open>take_photo\<close>, over the files written so far (name and content) and the clock; the
  result is the file name or the exception, with the files and the clock afterwards.
\<close>

definition take_photo ::
  "world \<Rightarrow> camera_manager \<Rightarrow> (string \<times> frame) list \<Rightarrow> nat \<Rightarrow> string option
     \<Rightarrow> (exn + string) \<times> (string \<times> frame) list \<times> nat" where
  "take_photo w cam files clock filename =
     (if \<not> is_active cam then (Inl (RuntimeError ''Camera is not active''), files, clock)
      else (case get_current_frame cam of
              None \<Rightarrow> (Inl (RuntimeError ''No frame available''), files, clock)
            | Some fr \<Rightarrow>
                (let (name, clock') =
                       (case filename of
                          None \<Rightarrow> (''output/photos/jarvis_photo_'' @ strftime w clock @ ''.jpg'', Suc clock)
                        | Some n \<Rightarrow> (n, clock))
                 in (case imwrite w of
                       Written \<Rightarrow> (Inr name, files @ [(name, fr)], clock')
                     | NotWritten \<Rightarrow> (Inr name, files, clock')
                     | Raised m \<Rightarrow> (Inl (Cv2Error m), files, clock')))))"


section \<open>speech_engine.py: speech synthesis\<close>

text \<open>\<open>str.replace(old, new)\<close>: the occurrences of \<open>old\<close> from the left, not overlapping.\<close>

function str_replace :: "string \<Rightarrow> string \<Rightarrow> string \<Rightarrow> string" where
  "str_replace [] old new = (if old = [] then new else [])"
| "str_replace (c # cs) old new =
     (if old = [] then new @ c # str_replace cs old new
      else if startswith (c # cs) old then new @ str_replace (drop (length old) (c # cs)) old new
      else c # str_replace cs old new)"
  by pat_completeness auto
termination
  by (relation "measure (\<lambda>(s, old, new). length s)") auto

definition emphasis_words :: "string list" where
  "emphasis_words = [''jarvis'', ''sistema'', ''ativado'', ''processando'', ''comando'']"

definition apply_robotic_effects :: "string \<Rightarrow> string" where
  "apply_robotic_effects text =
     (let t1 = str_replace text ''.'' ''... '';
          t2 = str_replace t1 '','' '',. '';
          t3 = str_replace t2 ''!'' ''... '';
          t4 = str_replace t3 ''?'' ''... ''
      in foldl (\<lambda>robotic_text word.
                  if str_contains (lower robotic_text) word
                  then str_replace robotic_text word
                         (''<emphasis level='' @ [CHR 0x27] @ ''strong'' @ [CHR 0x27] @ ''>'' @ word @ ''</emphasis>'')
                  else robotic_text)
               t4 emphasis_words)"

text \<open>
  What the loudspeaker gets: the text handed to the local engine, or the text and the
  language code handed to the cloud service.
\<close>

datatype utterance = Pyttsx3 string | Gtts string string

text \<open>
  The engine object: its type from the configuration, the flag \<open>is_speaking\<close>, and the
  audio produced so far. \<open>received\<close> is a history of the calls of \<open>speak\<close> with their
  arguments; no code reads it.
\<close>

record speech_engine =
  engine_type :: string
  engine_is_speaking :: bool
  audio :: "utterance list"
  received :: "(string \<times> string option) list"

definition lang_map :: "(string \<times> string) list" where
  "lang_map = [(''pt-BR'', ''pt''), (''en-US'', ''en''), (''es-ES'', ''es''),
               (''fr-FR'', ''fr''), (''de-DE'', ''de'')]"

text \<open>Both backends catch their own exceptions; a failed synthesis produces no audio.\<close>

definition speak_pyttsx3 :: "world \<Rightarrow> speech_engine \<Rightarrow> string \<Rightarrow> speech_engine" where
  "speak_pyttsx3 w se text =
     (if synthesis_fails w then se else se\<lparr>audio := audio se @ [Pyttsx3 text]\<rparr>)"

definition speak_gtts :: "world \<Rightarrow> speech_engine \<Rightarrow> string \<Rightarrow> string option \<Rightarrow> speech_engine" where
  "speak_gtts w se text language =
     (if \<not> gtts_available w then se
      else (let lang = (case language of
                          None \<Rightarrow> ''pt''
                        | Some l \<Rightarrow> (case map_of lang_map l of None \<Rightarrow> ''pt'' | Some c \<Rightarrow> c))
            in if synthesis_fails w then se else se\<lparr>audio := audio se @ [Gtts text lang]\<rparr>))"

text \<open>The \<open>try\<close> block of \<open>speak\<close>: preprocessing, then the backend of the engine type.\<close>

definition synthesize :: "world \<Rightarrow> speech_engine \<Rightarrow> string \<Rightarrow> string option \<Rightarrow> speech_engine" where
  "synthesize w se text language =
     (let processed_text = apply_robotic_effects text
      in if engine_type se = ''pyttsx3'' then speak_pyttsx3 w se processed_text
         else if engine_type se = ''gtts'' \<and> gtts_available w then speak_gtts w se processed_text language
         else se)"

text \<open>\<open>SpeechEngine.speak\<close> run from call to return with no other thread in between.\<close>

definition SpeechEngine_speak :: "world \<Rightarrow> speech_engine \<Rightarrow> string \<Rightarrow> string option \<Rightarrow> speech_engine" where
  "SpeechEngine_speak w se0 text language =
     (let se = se0\<lparr>received := received se0 @ [(text, language)]\<rparr>
      in if text = [] then se
         else if engine_is_speaking se then se
         else (let se1 = se\<lparr>engine_is_speaking := True\<rparr>;
                   se2 = synthesize w se1 text language
               in se2\<lparr>engine_is_speaking := False\<rparr>))"

definition SpeechEngine_stop :: "speech_engine \<Rightarrow> speech_engine" where
  "SpeechEngine_stop se = se\<lparr>engine_is_speaking := False\<rparr>"

subsection \<open>Concurrent calls of \<open>speak\<close>\<close>

text \<open>
  Several threads call \<open>speak\<close> on one engine. A call is at one of these points:
  \<^item> \<open>Called\<close>: at \<open>if not text\<close>;
  \<^item> \<open>AtLock\<close>: at \<open>with self.speech_lock\<close>, waiting for the lock;
  \<^item> \<open>Check\<close>: holding the lock, at \<open>if self.is_speaking\<close>;
  \<^item> \<open>SetFlag\<close>: holding the lock, at \<open>self.is_speaking = True\<close>;
  \<^item> \<open>Leave\<close>: at the end of the \<open>with\<close> block, about to release the lock;
  \<^item> \<open>Synth\<close>: in the \<open>try\<close> block, where the audio is produced and played;
  \<^item> \<open>Finally\<close>: at \<open>self.is_speaking = False\<close>;
  \<^item> \<open>Returned\<close>.
  Each statement is one atomic step (the interpreter runs one thread at a time), and the
  scheduler picks the call that moves next.
\<close>

datatype pc = Called | AtLock | Check | SetFlag | Leave | Synth | Finally | Returned

record speak_call =
  point :: pc
  text_arg :: string
  language_arg :: "string option"

record speech_system =
  engine :: speech_engine
  speech_lock :: "nat option"
  calls :: "speak_call list"

definition move :: "nat \<Rightarrow> pc \<Rightarrow> speech_system \<Rightarrow> speech_system" where
  "move i p sys = sys\<lparr>calls := (calls sys)[i := (calls sys ! i)\<lparr>point := p\<rparr>]\<rparr>"

definition step :: "world \<Rightarrow> nat \<Rightarrow> speech_system \<Rightarrow> speech_system" where
  "step w i sys =
     (if \<not> i < length (calls sys) then sys
      else (let c = calls sys ! i in
        case point c of
          Called \<Rightarrow>
            (let sys' = sys\<lparr>engine := (engine sys)\<lparr>received := received (engine sys) @ [(text_arg c, language_arg c)]\<rparr>\<rparr>
             in if text_arg c = [] then move i Returned sys' else move i AtLock sys')
        | AtLock \<Rightarrow>
            (if speech_lock sys = None then move i Check (sys\<lparr>speech_lock := Some i\<rparr>) else sys)
        | Check \<Rightarrow>
            (if engine_is_speaking (engine sys) then move i Returned (sys\<lparr>speech_lock := None\<rparr>)
             else move i SetFlag sys)
        | SetFlag \<Rightarrow>
            move i Leave (sys\<lparr>engine := (engine sys)\<lparr>engine_is_speaking := True\<rparr>\<rparr>)
        | Leave \<Rightarrow>
            move i Synth (sys\<lparr>speech_lock := None\<rparr>)
        | Synth \<Rightarrow>
            move i Finally (sys\<lparr>engine := synthesize w (engine sys) (text_arg c) (language_arg c)\<rparr>)
        | Finally \<Rightarrow>
            move i Returned (sys\<lparr>engine := (engine sys)\<lparr>engine_is_speaking := False\<rparr>\<rparr>)
        | Returned \<Rightarrow> sys))"

definition run :: "world \<Rightarrow> nat list \<Rightarrow> speech_system \<Rightarrow> speech_system" where
  "run w schedule sys = foldl (\<lambda>s i. step w i s) sys schedule"

text \<open>
  The engine after \<open>__init__\<close> (not speaking, lock free) with the calls that the threads
  are about to make.
\<close>

definition initial_system :: "string \<Rightarrow> (string \<times> string option) list \<Rightarrow> speech_system" where
  "initial_system etype args =
     \<lparr>engine = \<lparr>engine_type = etype, engine_is_speaking = False, audio = [], received = []\<rparr>,
      speech_lock = None,
      calls = map (\<lambda>(t, l). \<lparr>point = Called, text_arg = t, language_arg = l\<rparr>) args\<rparr>"

text \<open>The calls that are inside the \<open>try\<close> block, where audio is produced.\<close>

definition synthesizing :: "speech_system \<Rightarrow> nat list" where
  "synthesizing sys = filter (\<lambda>i. point (calls sys ! i) = Synth) [0 ..< length (calls sys)]"

text \<open>The calls that are at the check or at the setting of the flag.\<close>

definition guarded :: "speech_system \<Rightarrow> nat list" where
  "guarded sys = filter (\<lambda>i. point (calls sys ! i) = Check \<or> point (calls sys ! i) = SetFlag) [0 ..< length (calls sys)]"

text \<open>
  The invariant of the lock protocol. A call holds the lock exactly while it is at the check,
  at the setting of the flag or at the end of the \<open>with\<close> block; a call is busy from the
  setting of the flag to its clearing. At most one call is busy, the flag is set while a call
  is busy, and the flag is not set when a call is about to set it.
\<close>

definition holds_lock :: "pc \<Rightarrow> bool" where
  "holds_lock p = (p = Check \<or> p = SetFlag \<or> p = Leave)"

definition busy :: "pc \<Rightarrow> bool" where
  "busy p = (p = Leave \<or> p = Synth \<or> p = Finally)"

definition lock_invariant :: "speech_system \<Rightarrow> bool" where
  "lock_invariant sys =
     ((\<forall>i < length (calls sys). holds_lock (point (calls sys ! i)) = (speech_lock sys = Some i)) \<and>
      (\<forall>i. speech_lock sys = Some i \<longrightarrow> i < length (calls sys)) \<and>
      (\<forall>i < length (calls sys). busy (point (calls sys ! i)) \<longrightarrow> engine_is_speaking (engine sys)) \<and>
      (\<forall>i < length (calls sys). \<forall>j < length (calls sys).
          busy (point (calls sys ! i)) \<and> busy (point (calls sys ! j)) \<longrightarrow> i = j) \<and>
      (\<forall>i < length (calls sys). point (calls sys ! i) = SetFlag \<longrightarrow> \<not> engine_is_speaking (engine sys)))"


section \<open>jarvis_core.py: the coordinator\<close>

record turn =
  turn_role :: string
  turn_content :: string
  turn_timestamp :: nat
  turn_language :: string

text \<open>
  A queued command is a dictionary read with \<open>command_data.get\<close>, so each entry may be
  missing.
\<close>

record command =
  cmd_text :: "string option"
  cmd_language :: "string option"
  cmd_timestamp :: "nat option"

record flags =
  listening :: bool
  speaking :: bool
  processing :: bool

datatype payload = Text string | Command command | Response string string

text \<open>
  A callback runs synchronously inside \<open>_trigger_callback\<close>; an event records its name,
  its data and the three flags as a subscriber reads them at that moment.
\<close>

record event =
  ev_name :: string
  ev_data :: payload
  ev_flags :: flags

datatype log_entry = Info string | Warning string | Error string

datatype system_action = IncreaseVolume | DecreaseVolume | MuteVolume

record openrouter_client =
  api_key :: string
  base_url :: string
  model :: string
  max_tokens :: int

text \<open>
  The coordinator with its components. \<open>events\<close>, \<open>logged\<close>, \<open>ai_requests\<close> (the
  calls of \<open>chat_completion\<close> with their arguments), \<open>system_actions\<close> and \<open>files\<close>
  collect what the program does to the outside; \<open>clock\<close> is read by \<open>datetime.now()\<close>.
\<close>

record jarvis_core =
  ai_client :: "openrouter_client option"
  speech_engine :: speech_engine
  camera_manager :: camera_manager
  is_listening :: bool
  is_speaking :: bool
  is_processing :: bool
  wake_word_detected :: bool
  command_queue :: "command list"
  conversation_history :: "turn list"
  current_language :: string
  events :: "event list"
  logged :: "log_entry list"
  ai_requests :: "(message list \<times> string) list"
  system_actions :: "system_action list"
  files :: "(string \<times> frame) list"
  clock :: nat

definition trigger_callback :: "string \<Rightarrow> payload \<Rightarrow> jarvis_core \<Rightarrow> jarvis_core" where
  "trigger_callback event d s =
     s\<lparr>events := events s @
          [\<lparr>ev_name = event, ev_data = d,
            ev_flags = \<lparr>listening = is_listening s, speaking = is_speaking s,
                        processing = is_processing s\<rparr>\<rparr>]\<rparr>"

text \<open>
  \<open>JarvisCore.speak\<close>. The engine catches its own exceptions, so the \<open>except\<close> clause
  here is never entered.
\<close>

definition speak :: "world \<Rightarrow> string \<Rightarrow> string option \<Rightarrow> jarvis_core \<Rightarrow> jarvis_core" where
  "speak w text language s =
     (if text = [] then s
      else (let lang = (case language of
                          None \<Rightarrow> current_language s
                        | Some l \<Rightarrow> if l = [] then current_language s else l);
                s1 = s\<lparr>is_speaking := True\<rparr>;
                s2 = trigger_callback ''on_status_change'' (Text ''speaking'') s1;
                s3 = s2\<lparr>speech_engine := SpeechEngine_speak w (speech_engine s2) text (Some lang)\<rparr>;
                s4 = s3\<lparr>is_speaking := False\<rparr>
            in trigger_callback ''on_status_change'' (Text ''idle'') s4))"

definition system_prompts :: "(string \<times> message) list" where
  "system_prompts =
     [(''pt-BR'', \<lparr>role = ''system'', content =
         ''Voc'' @ [CHR 0xEA] @ '' '' @ [CHR 0xE9] @ '' JARVIS, um assistente virtual inteligente. Seja '' @ [CHR 0xFA] @ ''til, conciso e amig'' @ [CHR 0xE1] @ ''vel. Responda sempre em portugu'' @ [CHR 0xEA] @ ''s brasileiro.''\<rparr>),
      (''en-US'', \<lparr>role = ''system'', content =
         ''You are JARVIS, an intelligent virtual assistant. Be helpful, concise and friendly. Always respond in English.''\<rparr>),
      (''es-ES'', \<lparr>role = ''system'', content =
         ''Eres JARVIS, un asistente virtual inteligente. S'' @ [CHR 0xE9] @ '' '' @ [CHR 0xFA] @ ''til, conciso y amigable. Responde siempre en espa'' @ [CHR 0xF1] @ ''ol.''\<rparr>)]"

text \<open>\<open>system_prompts.get(language, system_prompts['pt-BR'])\<close>.\<close>

definition system_prompt :: "string \<Rightarrow> message" where
  "system_prompt language =
     (case map_of system_prompts language of
        Some p \<Rightarrow> p
      | None \<Rightarrow> (case map_of system_prompts ''pt-BR'' of
                    Some p \<Rightarrow> p
                  | None \<Rightarrow> \<lparr>role = [], content = []\<rparr>))"

text \<open>\<open>self.conversation_history[-6:] if len(self.conversation_history) > 6 else self.conversation_history\<close>.\<close>

definition recent_history :: "turn list \<Rightarrow> turn list" where
  "recent_history h = (if length h > 6 then drop (length h - 6) h else h)"

definition build_context :: "string \<Rightarrow> jarvis_core \<Rightarrow> message list" where
  "build_context language s =
     [system_prompt language] @
     map (\<lambda>msg. \<lparr>role = turn_role msg, content = turn_content msg\<rparr>)
         (recent_history (conversation_history s))"

text \<open>
  \<open>_process_with_ai\<close>. \<open>chat_completion\<close> returns on every outcome, so the \<open>except\<close>
  clause here is never entered.
\<close>

definition process_with_ai :: "world \<Rightarrow> string \<Rightarrow> string \<Rightarrow> jarvis_core \<Rightarrow> string \<times> jarvis_core" where
  "process_with_ai w text language s =
     (case ai_client s of
        None \<Rightarrow> (''Sistema de IA n'' @ [CHR 0xE3] @ ''o configurado. Verifique sua chave de API.'', s)
      | Some client \<Rightarrow>
          (let context = build_context language s;
               messages = context @ [\<lparr>role = ''user'', content = text\<rparr>];
               s1 = s\<lparr>ai_requests := ai_requests s @ [(messages, language)]\<rparr>
           in (chat_completion (http_post w messages) messages language, s1)))"

text \<open>\<open>any(word in command_lower for word in words)\<close>.\<close>

definition any_in :: "string list \<Rightarrow> string \<Rightarrow> bool" where
  "any_in words command_lower = list_ex (\<lambda>word. str_contains command_lower word) words"

definition camera_words :: "string list" where
  "camera_words = [''c'' @ [CHR 0xE2] @ ''mera'', ''camera'', ''foto'', ''picture'']"

definition volume_words :: "string list" where
  "volume_words = [''volume'', ''som'']"

text \<open>
  \<open>_handle_system_commands\<close>. In each of the three groups an \<open>if\<close>/\<open>elif\<close> chain with
  no \<open>else\<close> falls through to the next group; the chain below repeats the condition of the
  group in each of its branches, which is the same order of tests. The results of
  \<open>start_camera\<close> and of the volume actions are not looked at.
\<close>

definition handle_system_commands ::
  "world \<Rightarrow> string \<Rightarrow> jarvis_core \<Rightarrow> (exn + string option) \<times> jarvis_core" where
  "handle_system_commands w cmd s =
     (let command_lower = lower cmd;
          has = str_contains command_lower;
          cam = any_in camera_words command_lower;
          vol = any_in volume_words command_lower;
          lng = (has ''idioma'' \<or> has ''language'')
      in
      if cam \<and> (has ''ligar'' \<or> has ''ativar'' \<or> has ''turn on'') then
        (Inr (Some (''C'' @ [CHR 0xE2] @ ''mera ativada com sucesso.'')),
         s\<lparr>camera_manager := snd (start_camera w (camera_manager s))\<rparr>)
      else if cam \<and> (has ''desligar'' \<or> has ''desativar'' \<or> has ''turn off'') then
        (Inr (Some (''C'' @ [CHR 0xE2] @ ''mera desativada.'')),
         s\<lparr>camera_manager := stop_camera (camera_manager s)\<rparr>)
      else if cam \<and> (has ''foto'' \<or> has ''picture'' \<or> has ''capturar'') then
        (case take_photo w (camera_manager s) (files s) (clock s) None of
           (Inl e, files', clock') \<Rightarrow> (Inl e, s\<lparr>files := files', clock := clock'\<rparr>)
         | (Inr filename, files', clock') \<Rightarrow>
             (Inr (Some (''Foto capturada e salva como '' @ filename @ ''.'')),
              s\<lparr>files := files', clock := clock'\<rparr>))
      else if vol \<and> (has ''aumentar'' \<or> has ''increase'' \<or> has ''up'') then
        (Inr (Some ''Volume aumentado.''), s\<lparr>system_actions := system_actions s @ [IncreaseVolume]\<rparr>)
      else if vol \<and> (has ''diminuir'' \<or> has ''decrease'' \<or> has ''down'') then
        (Inr (Some (''Volume diminu'' @ [CHR 0xED] @ ''do.'')), s\<lparr>system_actions := system_actions s @ [DecreaseVolume]\<rparr>)
      else if vol \<and> (has ''mudo'' \<or> has ''mute'') then
        (Inr (Some ''Som silenciado.''), s\<lparr>system_actions := system_actions s @ [MuteVolume]\<rparr>)
      else if lng \<and> (has (''ingl'' @ [CHR 0xEA] @ ''s'') \<or> has ''english'') then
        (Inr (Some ''Language changed to English.''), s\<lparr>current_language := ''en-US''\<rparr>)
      else if lng \<and> (has (''portugu'' @ [CHR 0xEA] @ ''s'') \<or> has ''portuguese'') then
        (Inr (Some (''Idioma alterado para portugu'' @ [CHR 0xEA] @ ''s.'')), s\<lparr>current_language := ''pt-BR''\<rparr>)
      else if lng \<and> (has ''espanhol'' \<or> has ''spanish'') then
        (Inr (Some (''Idioma cambiado a espa'' @ [CHR 0xF1] @ ''ol.'')), s\<lparr>current_language := ''es-ES''\<rparr>)
      else (Inr None, s))"

text \<open>
  The dispatch in the words of the specification: an ordered set of keyword matchers
  (camera on, off, photo; volume up, down, mute; language switch) over the lower-cased
  command, of which the first match wins; then the action of the matched command.
\<close>

datatype system_command =
    CameraOn | CameraOff | TakePhoto
  | VolumeUp | VolumeDown | VolumeMute
  | SwitchEnglish | SwitchPortuguese | SwitchSpanish

definition match_system_command :: "string \<Rightarrow> system_command option" where
  "match_system_command command_lower =
     (let has = str_contains command_lower;
          cam = any_in camera_words command_lower;
          vol = any_in volume_words command_lower;
          lng = (has ''idioma'' \<or> has ''language'')
      in
      if cam \<and> (has ''ligar'' \<or> has ''ativar'' \<or> has ''turn on'') then Some CameraOn
      else if cam \<and> (has ''desligar'' \<or> has ''desativar'' \<or> has ''turn off'') then Some CameraOff
      else if cam \<and> (has ''foto'' \<or> has ''picture'' \<or> has ''capturar'') then Some TakePhoto
      else if vol \<and> (has ''aumentar'' \<or> has ''increase'' \<or> has ''up'') then Some VolumeUp
      else if vol \<and> (has ''diminuir'' \<or> has ''decrease'' \<or> has ''down'') then Some VolumeDown
      else if vol \<and> (has ''mudo'' \<or> has ''mute'') then Some VolumeMute
      else if lng \<and> (has (''ingl'' @ [CHR 0xEA] @ ''s'') \<or> has ''english'') then Some SwitchEnglish
      else if lng \<and> (has (''portugu'' @ [CHR 0xEA] @ ''s'') \<or> has ''portuguese'') then Some SwitchPortuguese
      else if lng \<and> (has ''espanhol'' \<or> has ''spanish'') then Some SwitchSpanish
      else None)"

fun perform_system_command ::
  "world \<Rightarrow> system_command \<Rightarrow> jarvis_core \<Rightarrow> (exn + string option) \<times> jarvis_core" where
  "perform_system_command w CameraOn s =
     (Inr (Some (''C'' @ [CHR 0xE2] @ ''mera ativada com sucesso.'')),
      s\<lparr>camera_manager := snd (start_camera w (camera_manager s))\<rparr>)"
| "perform_system_command w CameraOff s =
     (Inr (Some (''C'' @ [CHR 0xE2] @ ''mera desativada.'')), s\<lparr>camera_manager := stop_camera (camera_manager s)\<rparr>)"
| "perform_system_command w TakePhoto s =
     (case take_photo w (camera_manager s) (files s) (clock s) None of
        (Inl e, files', clock') \<Rightarrow> (Inl e, s\<lparr>files := files', clock := clock'\<rparr>)
      | (Inr filename, files', clock') \<Rightarrow>
          (Inr (Some (''Foto capturada e salva como '' @ filename @ ''.'')),
           s\<lparr>files := files', clock := clock'\<rparr>))"
| "perform_system_command w VolumeUp s =
     (Inr (Some ''Volume aumentado.''), s\<lparr>system_actions := system_actions s @ [IncreaseVolume]\<rparr>)"
| "perform_system_command w VolumeDown s =
     (Inr (Some (''Volume diminu'' @ [CHR 0xED] @ ''do.'')), s\<lparr>system_actions := system_actions s @ [DecreaseVolume]\<rparr>)"
| "perform_system_command w VolumeMute s =
     (Inr (Some ''Som silenciado.''), s\<lparr>system_actions := system_actions s @ [MuteVolume]\<rparr>)"
| "perform_system_command w SwitchEnglish s =
     (Inr (Some ''Language changed to English.''), s\<lparr>current_language := ''en-US''\<rparr>)"
| "perform_system_command w SwitchPortuguese s =
     (Inr (Some (''Idioma alterado para portugu'' @ [CHR 0xEA] @ ''s.'')), s\<lparr>current_language := ''pt-BR''\<rparr>)"
| "perform_system_command w SwitchSpanish s =
     (Inr (Some (''Idioma cambiado a espa'' @ [CHR 0xF1] @ ''ol.'')), s\<lparr>current_language := ''es-ES''\<rparr>)"

text \<open>\<open>command_data.get('text', '')\<close> and \<open>command_data.get('language', self.current_language)\<close>.\<close>

definition command_text :: "command \<Rightarrow> string" where
  "command_text cmd = (case cmd_text cmd of None \<Rightarrow> [] | Some t \<Rightarrow> t)"

definition command_language :: "command \<Rightarrow> jarvis_core \<Rightarrow> string" where
  "command_language cmd s = (case cmd_language cmd of None \<Rightarrow> current_language s | Some l \<Rightarrow> l)"

text \<open>
  The first statements of \<open>_process_command\<close>, up to the user turn appended to the
  history: the state in which \<open>_handle_system_commands\<close> is called.
\<close>

definition enter_command :: "command \<Rightarrow> jarvis_core \<Rightarrow> jarvis_core" where
  "enter_command cmd s =
     (let s1 = s\<lparr>is_processing := True\<rparr>;
          s2 = trigger_callback ''on_status_change'' (Text ''processing'') s1;
          s3 = s2\<lparr>logged := logged s2 @ [Info (''Processing command: '' @ command_text cmd)]\<rparr>
      in s3\<lparr>conversation_history := conversation_history s3 @
               [\<lparr>turn_role = ''user'', turn_content = command_text cmd,
                 turn_timestamp = clock s3, turn_language = command_language cmd s\<rparr>],
             clock := Suc (clock s3)\<rparr>)"

text \<open>
  The end of the \<open>try\<close> block of \<open>_process_command\<close>, once the response is known:
  the assistant turn, the spoken response and the two notifications.
\<close>

definition respond :: "world \<Rightarrow> command \<Rightarrow> string \<Rightarrow> string \<Rightarrow> jarvis_core \<Rightarrow> jarvis_core" where
  "respond w cmd language response s7 =
     (let s8 = s7\<lparr>conversation_history := conversation_history s7 @
                     [\<lparr>turn_role = ''assistant'', turn_content = response,
                       turn_timestamp = clock s7, turn_language = language\<rparr>],
                   clock := Suc (clock s7)\<rparr>;
          s9 = speak w response (Some language) s8;
          s10 = trigger_callback ''on_command'' (Command cmd) s9
      in trigger_callback ''on_response'' (Response response language) s10)"

text \<open>
  The \<open>try\<close> block of \<open>_process_command\<close>: the exception that leaves it, if any, and the
  state at that point. \<open>if system_response\<close> is false for \<open>None\<close> and for the empty string.
\<close>

definition process_command_try :: "world \<Rightarrow> command \<Rightarrow> jarvis_core \<Rightarrow> exn option \<times> jarvis_core" where
  "process_command_try w cmd s =
     (let language = command_language cmd s
      in case handle_system_commands w (command_text cmd) (enter_command cmd s) of
           (Inl e, s6) \<Rightarrow> (Some e, s6)
         | (Inr system_response, s6) \<Rightarrow>
             (let (response, s7) =
                    (case system_response of
                       None \<Rightarrow> process_with_ai w (command_text cmd) language s6
                     | Some r \<Rightarrow> if r = [] then process_with_ai w (command_text cmd) language s6
                                 else (r, s6))
              in (None, respond w cmd language response s7)))"

definition error_msg :: string where
  "error_msg = ''Desculpe, ocorreu um erro ao processar seu comando.''"

text \<open>The \<open>except\<close> clause and the \<open>finally\<close> clause of \<open>_process_command\<close>.\<close>

definition process_command_except :: "world \<Rightarrow> exn \<Rightarrow> jarvis_core \<Rightarrow> jarvis_core" where
  "process_command_except w e s =
     (let s1 = s\<lparr>logged := logged s @ [Error (''Error processing command: '' @ str_exn e)]\<rparr>;
          s2 = speak w error_msg None s1
      in trigger_callback ''on_error'' (Text (str_exn e)) s2)"

definition process_command_finally :: "jarvis_core \<Rightarrow> jarvis_core" where
  "process_command_finally s =
     trigger_callback ''on_status_change'' (Text ''idle'') (s\<lparr>is_processing := False\<rparr>)"

definition process_command :: "world \<Rightarrow> command \<Rightarrow> jarvis_core \<Rightarrow> jarvis_core" where
  "process_command w cmd s =
     (case process_command_try w cmd s of
        (None, s') \<Rightarrow> process_command_finally s'
      | (Some e, s') \<Rightarrow> process_command_finally (process_command_except w e s'))"

text \<open>
  \<open>_command_processor\<close>: the single consumer takes the queued commands one after the
  other, in the order of the queue.
\<close>

definition command_processor :: "world \<Rightarrow> jarvis_core \<Rightarrow> jarvis_core" where
  "command_processor w s =
     foldl (\<lambda>s' cmd. process_command w cmd s') (s\<lparr>command_queue := []\<rparr>) (command_queue s)"

text \<open>
  \<open>start_listening\<close> sets the flag and starts the thread of \<open>_listen_for_command\<close>,
  whose argument here is what the recognition returns.
\<close>

definition start_listening :: "jarvis_core \<Rightarrow> jarvis_core" where
  "start_listening s =
     (if is_listening s \<or> is_speaking s then s
      else trigger_callback ''on_status_change'' (Text ''listening'') (s\<lparr>is_listening := True\<rparr>))"

definition listen_for_command :: "string option \<Rightarrow> jarvis_core \<Rightarrow> jarvis_core" where
  "listen_for_command recognized s =
     (let s1 = (case recognized of
                  None \<Rightarrow> s
                | Some t \<Rightarrow>
                    if t = [] then s
                    else s\<lparr>command_queue := command_queue s @
                             [\<lparr>cmd_text = Some t, cmd_language = Some (current_language s),
                               cmd_timestamp = Some (clock s)\<rparr>],
                           clock := Suc (clock s)\<rparr>)
      in trigger_callback ''on_status_change'' (Text ''idle'') (s1\<lparr>is_listening := False\<rparr>))"

text \<open>
  One round of \<open>_voice_activation_listener\<close>, with the configured wake word and what
  \<open>listen_for_wake_word\<close> returns.
\<close>

definition voice_activation_round :: "string \<Rightarrow> string option \<Rightarrow> jarvis_core \<Rightarrow> jarvis_core" where
  "voice_activation_round wake_word heard s =
     (if \<not> is_speaking s \<and> \<not> is_processing s then
        (case heard of
           None \<Rightarrow> s
         | Some audio_text \<Rightarrow>
             if audio_text \<noteq> [] \<and> str_contains (lower audio_text) (lower wake_word)
             then start_listening
                    (trigger_callback ''on_wake_word'' (Text audio_text)
                       (s\<lparr>wake_word_detected := True\<rparr>))
             else s)
      else s)"

text \<open>
  The coordinator after \<open>__init__\<close> with the default configuration and no API key in the
  environment: no AI client, the local speech engine, the camera off, no flag set, an empty
  history, Portuguese as the current language. And a world in which the network fails, the
  camera opens and files are written.
\<close>

definition idle_core :: jarvis_core where
  "idle_core =
     \<lparr>ai_client = None,
      speech_engine = \<lparr>engine_type = ''pyttsx3'', engine_is_speaking = False, audio = [], received = []\<rparr>,
      camera_manager = \<lparr>is_active = False, is_recording = False, current_frame = None\<rparr>,
      is_listening = False, is_speaking = False, is_processing = False,
      wake_word_detected = False, command_queue = [], conversation_history = [],
      current_language = ''pt-BR'', events = [], logged = [], ai_requests = [],
      system_actions = [], files = [], clock = 0\<rparr>"

definition quiet_world :: world where
  "quiet_world =
     \<lparr>http_post = (\<lambda>messages. RequestException), device_opens = True, imwrite = Written,
      strftime = (\<lambda>t. ''20240101_120000''), gtts_available = False, synthesis_fails = False\<rparr>"


section \<open>Properties of the configuration store\<close>

lemma split_dot_ne: "split_dot s \<noteq> []"
  by (induction s) (auto split: list.splits)

lemma get_loop_stored: "get_loop v ks d = Inr (case stored_value v ks of None \<Rightarrow> d | Some x \<Rightarrow> x)"
proof (induction v ks rule: stored_value.induct)
  case (2 al k ks)
  then show ?case
    by (cases "map_of al k") (simp_all add: map_of_eq_None_iff [symmetric])
qed simp_all

lemma set_loop_not_dict: "\<not> isinstance_dict c \<Longrightarrow> set_loop c ks v = Inr c' \<Longrightarrow> False"
proof (cases ks)
  case Nil
  assume "set_loop c ks v = Inr c'"
  with Nil show False by simp
next
  case (Cons k ks')
  assume a: "set_loop c ks v = Inr c'" and b: "\<not> isinstance_dict c"
  from a b Cons show False
    by (cases c; cases ks') (auto split: sum.splits if_splits)
qed

lemma set_loop_last: "set_loop (JDict al) [k] v = Inr (JDict (AList.update k v al))"
  by simp

lemma set_loop_step:
  "set_loop (JDict al) (k # k' # ks) v =
     (case set_loop (case map_of al k of None \<Rightarrow> JDict [] | Some c \<Rightarrow> c) (k' # ks) v of
        Inl e \<Rightarrow> Inl e
      | Inr ch \<Rightarrow> Inr (JDict (AList.update k ch al)))"
proof (cases "map_of al k")
  case None
  then have "k \<notin> fst ` set al" by (simp add: map_of_eq_None_iff)
  with None show ?thesis
    by (simp add: update_conv' split: sum.splits)
next
  case (Some c)
  then have "k \<in> fst ` set al" by (metis map_of_eq_None_iff option.distinct(1))
  with Some show ?thesis
    by (simp split: sum.splits)
qed

lemma set_loop_stored: "set_loop c ks v = Inr c' \<Longrightarrow> stored_value c' ks = Some v"
proof (induction ks arbitrary: c c')
  case Nil
  then show ?case by simp
next
  case (Cons k ks)
  have "isinstance_dict c" using Cons.prems(1) set_loop_not_dict by blast
  then obtain al where c: "c = JDict al" by (cases c) simp_all
  show ?case
  proof (cases ks)
    case Nil
    with Cons.prems c show ?thesis by (auto simp: update_conv')
  next
    case (Cons k' ks')
    with Cons.prems c obtain ch where
      ch: "set_loop (case map_of al k of None \<Rightarrow> JDict [] | Some c \<Rightarrow> c) ks v = Inr ch"
      and c': "c' = JDict (AList.update k ch al)"
      by (auto simp: set_loop_step simp del: set_loop.simps split: sum.splits)
    from Cons.IH [OF ch] c' show ?thesis by (simp add: update_conv')
  qed
qed

lemma wf_update: "wf_json (JDict al) \<Longrightarrow> wf_json v \<Longrightarrow> wf_json (JDict (AList.update k v al))"
  by (induction al) (auto simp: distinct_update dom_update)

lemma wf_map_of: "wf_json (JDict al) \<Longrightarrow> map_of al k = Some v \<Longrightarrow> wf_json v"
  by (auto dest: map_of_SomeD)

lemma set_loop_wf: "set_loop c ks v = Inr c' \<Longrightarrow> wf_json c \<Longrightarrow> wf_json v \<Longrightarrow> wf_json c'"
proof (induction ks arbitrary: c c')
  case Nil
  then show ?case by simp
next
  case (Cons k ks)
  have "isinstance_dict c" using Cons.prems(1) set_loop_not_dict by blast
  then obtain al where c: "c = JDict al" by (cases c) simp_all
  show ?case
  proof (cases ks)
    case Nil
    with Cons.prems c show ?thesis by (auto simp del: wf_json.simps intro: wf_update)
  next
    case (Cons k' ks')
    with Cons.prems c obtain ch where
      ch: "set_loop (case map_of al k of None \<Rightarrow> JDict [] | Some c \<Rightarrow> c) ks v = Inr ch"
      and c': "c' = JDict (AList.update k ch al)"
      by (auto simp: set_loop_step simp del: set_loop.simps split: sum.splits)
    have "wf_json (case map_of al k of None \<Rightarrow> JDict [] | Some c \<Rightarrow> c)"
      using Cons.prems(2) c by (auto split: option.splits dest: map_of_SomeD)
    from Cons.IH [OF ch this Cons.prems(3)] c' Cons.prems(2) c show ?thesis
      by (auto simp del: wf_json.simps intro: wf_update)
  qed
qed


lemma set_loop_is_dict: "set_loop c ks v = Inr c' \<Longrightarrow> isinstance_dict c'"
proof -
  assume a: "set_loop c ks v = Inr c'"
  then have "isinstance_dict c" using set_loop_not_dict by blast
  then obtain al where c: "c = JDict al" by (cases c) simp_all
  show ?thesis
  proof (cases ks)
    case Nil with a show ?thesis by simp
  next
    case (Cons k ks')
    with a c show ?thesis
      by (cases ks') (auto simp: set_loop_step simp del: set_loop.simps(3) split: sum.splits)
  qed
qed

lemma deep_merge_map_of:
  "distinct (map fst u) \<Longrightarrow>
   map_of (deep_merge d u) k =
     (case map_of u k of
        None \<Rightarrow> map_of d k
      | Some uv \<Rightarrow>
          (case (map_of d k, uv) of
             (Some (JDict dd), JDict uu) \<Rightarrow> Some (JDict (deep_merge dd uu))
           | _ \<Rightarrow> Some uv))"
proof (induction u arbitrary: d)
  case Nil
  then show ?case by simp
next
  case (Cons p rest)
  obtain key val where p: "p = (key, val)" by (cases p)
  from Cons.prems p have dist: "distinct (map fst rest)" and notin: "map_of rest key = None"
    by (auto simp: map_of_eq_None_iff)
  define d1 where "d1 = (case (map_of d key, val) of
       (Some (JDict dd), JDict uu) \<Rightarrow> AList.update key (JDict (deep_merge dd uu)) d
     | _ \<Rightarrow> AList.update key val d)"
  have step: "deep_merge d (p # rest) = deep_merge d1 rest"
    unfolding p d1_def by (cases val; cases "map_of d key") (auto split: json.splits)
  have d1_same: "map_of d1 key =
       (case (map_of d key, val) of
             (Some (JDict dd), JDict uu) \<Rightarrow> Some (JDict (deep_merge dd uu))
           | _ \<Rightarrow> Some val)"
    unfolding d1_def by (auto simp: update_conv' split: option.splits json.splits)
  have d1_other: "k \<noteq> key \<Longrightarrow> map_of d1 k = map_of d k"
    unfolding d1_def by (auto simp: update_conv' split: option.splits json.splits)
  have "map_of (deep_merge d (p # rest)) k = map_of (deep_merge d1 rest) k"
    by (simp only: step)
  also have "\<dots> = (case map_of rest k of
        None \<Rightarrow> map_of d1 k
      | Some uv \<Rightarrow>
          (case (map_of d1 k, uv) of
             (Some (JDict dd), JDict uu) \<Rightarrow> Some (JDict (deep_merge dd uu))
           | _ \<Rightarrow> Some uv))"
    by (rule Cons.IH [OF dist])
  also have "\<dots> = (case map_of (p # rest) k of
        None \<Rightarrow> map_of d k
      | Some uv \<Rightarrow>
          (case (map_of d k, uv) of
             (Some (JDict dd), JDict uu) \<Rightarrow> Some (JDict (deep_merge dd uu))
           | _ \<Rightarrow> Some uv))"
  proof (cases "k = key")
    case True
    with notin show ?thesis by (simp add: d1_same p)
  next
    case False
    with d1_other have eq: "map_of d1 k = map_of d k" by simp
    from False show ?thesis unfolding eq by (simp add: p)
  qed
  finally show ?case .
qed


lemma deep_merge_stored:
  "wf_json (JDict u) \<Longrightarrow> stored_value (JDict u) ks = Some v \<Longrightarrow> ks \<noteq> [] \<Longrightarrow>
   \<not> isinstance_dict v \<Longrightarrow> stored_value (JDict (deep_merge d u)) ks = Some v"
proof (induction ks arbitrary: d u)
  case Nil
  then show ?case by simp
next
  case (Cons k ks)
  from Cons.prems(1) have dist: "distinct (map fst u)" by simp
  from Cons.prems(2) obtain ch where ch: "map_of u k = Some ch" and sv: "stored_value ch ks = Some v"
    by (auto split: option.splits)
  from Cons.prems(1) ch have wfch: "wf_json ch" by (auto dest: map_of_SomeD)
  note m = deep_merge_map_of [OF dist, of d k, unfolded ch, simplified]
  show ?case
  proof (cases ks)
    case Nil
    with sv have "ch = v" by simp
    with m Cons.prems(4) have "map_of (deep_merge d u) k = Some v"
      by (cases v; cases "map_of d k") (auto split: json.splits)
    with Nil show ?thesis by simp
  next
    case (Cons k' ks')
    with sv obtain cu where cu: "ch = JDict cu" by (cases ch) auto
    show ?thesis
    proof (cases "\<exists>dd. map_of d k = Some (JDict dd)")
      case True
      then obtain dd where dd: "map_of d k = Some (JDict dd)" by blast
      with m cu have "map_of (deep_merge d u) k = Some (JDict (deep_merge dd cu))" by simp
      moreover have "stored_value (JDict (deep_merge dd cu)) ks = Some v"
        using Cons.IH [of cu dd] wfch sv cu Cons Cons.prems(4) by simp
      ultimately show ?thesis by simp
    next
      case False
      with m cu have "map_of (deep_merge d u) k = Some ch"
        by (cases "map_of d k") (auto split: json.splits)
      with sv show ?thesis by simp
    qed
  qed
qed


text \<open>
  Claim C10. \<open>Config.get\<close> is total: for every key string and every stored
  configuration it returns normally (\<open>Inr\<close>, never an exception); the result is the
  provided default whenever a path segment is absent or the value reached at a segment is
  not a mapping (\<open>stored_value\<close> is \<open>None\<close>), and the stored value otherwise.
\<close>

theorem Config_get_total:
  "Config_get cfg key dflt =
     Inr (case stored_value cfg (split_dot key) of None \<Rightarrow> dflt | Some v \<Rightarrow> v)"
  unfolding Config_get_def by (rule get_loop_stored)

text \<open>
  Claim C6, as the code has it. Whenever \<open>Config.set(key, value)\<close> returns normally, a
  subsequent \<open>Config.get(key)\<close> returns exactly that value; and when the value is not a
  mapping, the same holds after \<open>save_user_config\<close> followed by a fresh \<open>Config\<close> that
  merges the saved file over the defaults. (\<open>set\<close> raises \<open>TypeError\<close> when a path
  segment crosses a stored value that is not a mapping, and a mapping value is deep-merged
  with the default mapping under the same path on reload.)
\<close>

theorem Config_set_get:
  "Config_set cfg key v = Inr cfg' \<Longrightarrow>
     Config_get cfg' key dflt = Inr v \<and>
     (wf_json cfg \<and> wf_json v \<and> \<not> isinstance_dict v \<longrightarrow>
        Config_get (Config_init env_key (save_user_config cfg')) key dflt = Inr v)"
proof -
  assume a: "Config_set cfg key v = Inr cfg'"
  then have sl: "set_loop cfg (split_dot key) v = Inr cfg'" by (simp add: Config_set_def)
  have sv: "stored_value cfg' (split_dot key) = Some v" by (rule set_loop_stored [OF sl])
  have g1: "Config_get cfg' key dflt = Inr v"
    by (simp add: Config_get_def get_loop_stored sv)
  from set_loop_is_dict [OF sl] obtain u where u: "cfg' = JDict u" by (cases cfg') simp_all
  {
    assume wf: "wf_json cfg" "wf_json v" and nd: "\<not> isinstance_dict v"
    have wf': "wf_json (JDict u)" using set_loop_wf [OF sl wf] u by simp
    obtain d where d: "load_default_config env_key = JDict d"
      by (simp add: load_default_config_def)
    have "Config_init env_key (save_user_config cfg') = JDict (deep_merge d u)"
      by (simp add: Config_init_def save_user_config_def u d)
    moreover have "stored_value (JDict (deep_merge d u)) (split_dot key) = Some v"
      using deep_merge_stored [OF wf' _ split_dot_ne nd] sv u by simp
    ultimately have "Config_get (Config_init env_key (save_user_config cfg')) key dflt = Inr v"
      by (simp add: Config_get_def get_loop_stored)
  }
  with g1 show ?thesis by blast
qed

text \<open>
  The theorem at a concrete input: \<open>voice.rate\<close> set to 200 in a configuration holding
  \<open>voice.rate = 150\<close>, read back at once and after the save and reload over the defaults.
\<close>

theorem Config_set_get_witness:
  "Config_set (JDict [(''voice'', JDict [(''rate'', JInt 150)])]) ''voice.rate'' (JInt 200)
     = Inr (JDict [(''voice'', JDict [(''rate'', JInt 200)])]) \<and>
   wf_json (JDict [(''voice'', JDict [(''rate'', JInt 150)])]) \<and> wf_json (JInt 200) \<and>
   \<not> isinstance_dict (JInt 200) \<and>
   Config_get (JDict [(''voice'', JDict [(''rate'', JInt 200)])]) ''voice.rate'' JNull = Inr (JInt 200) \<and>
   Config_get (Config_init ''key'' (save_user_config (JDict [(''voice'', JDict [(''rate'', JInt 200)])])))
     ''voice.rate'' JNull = Inr (JInt 200)"
proof -
  have s: "Config_set (JDict [(''voice'', JDict [(''rate'', JInt 150)])]) ''voice.rate'' (JInt 200)
     = Inr (JDict [(''voice'', JDict [(''rate'', JInt 200)])])"
    by (simp add: Config_set_def)
  from Config_set_get [OF s, of JNull "''key''"] s show ?thesis by simp
qed

text \<open>
  The claim as stated fails twice on the default configuration. \<open>set('voice.rate.x', 1)\<close>
  raises \<open>TypeError\<close> (\<open>voice.rate\<close> holds the integer 150). \<open>set('voice', {'rate': 200})\<close>
  succeeds and is read back at once, but after the save and reload \<open>get('voice')\<close> is the
  default voice mapping with the rate replaced, a different value.
\<close>

theorem Config_set_get_counterexample:
  "Config_set (load_default_config []) ''voice.rate.x'' (JInt 1) = Inl TypeError \<and>
   isinstance_dict (projr (Config_set (load_default_config []) ''voice'' (JDict [(''rate'', JInt 200)]))) \<and>
   Config_get (projr (Config_set (load_default_config []) ''voice'' (JDict [(''rate'', JInt 200)])))
     ''voice'' JNull = Inr (JDict [(''rate'', JInt 200)]) \<and>
   Config_get (Config_init [] (save_user_config
       (projr (Config_set (load_default_config []) ''voice'' (JDict [(''rate'', JInt 200)])))))
     ''voice'' JNull
   \<noteq> Inr (JDict [(''rate'', JInt 200)])"
  by (simp add: Config_set_def Config_get_def Config_init_def save_user_config_def load_default_config_def)


section \<open>Properties of the AI client\<close>

text \<open>
  Claim C9. For every language string outside the five known codes the fallback response
  is the English (\<open>en-US\<close>) fallback string.
\<close>

theorem fallback_unknown_language:
  "language \<notin> {''pt-BR'', ''en-US'', ''es-ES'', ''fr-FR'', ''de-DE''} \<Longrightarrow>
     get_fallback_response language =
       ''Sorry, I'm having trouble processing your request right now. Please try again in a moment.'' \<and>
     get_fallback_response language = get_fallback_response ''en-US''"
  by (simp add: get_fallback_response_def fallback_responses_def)

text \<open>The theorem at the language code \<open>it-IT\<close>.\<close>

theorem fallback_unknown_language_witness:
  "''it-IT'' \<notin> {''pt-BR'', ''en-US'', ''es-ES'', ''fr-FR'', ''de-DE''} \<and>
   get_fallback_response ''it-IT'' =
       ''Sorry, I'm having trouble processing your request right now. Please try again in a moment.'' \<and>
   get_fallback_response ''it-IT'' = get_fallback_response ''en-US''"
proof -
  have h: "''it-IT'' \<notin> {''pt-BR'', ''en-US'', ''es-ES'', ''fr-FR'', ''de-DE''}" by simp
  from fallback_unknown_language [OF h] h show ?thesis by blast
qed





section \<open>Properties of the camera\<close>

text \<open>
  Claim C5. Whenever the camera is not active, \<open>take_photo\<close> raises the
  \<open>RuntimeError\<close> with the message \<open>Camera is not active\<close> before anything is
  written: no file name is returned, and the files (and the clock) are as before.
\<close>

theorem take_photo_inactive:
  "\<not> is_active cam \<Longrightarrow>
     take_photo w cam fs clk filename = (Inl (RuntimeError ''Camera is not active''), fs, clk)"
  by (simp add: take_photo_def)

text \<open>The theorem at the camera of the coordinator after start-up, which is off.\<close>

theorem take_photo_inactive_witness:
  "\<not> is_active (camera_manager idle_core) \<and>
   take_photo quiet_world (camera_manager idle_core) [] 0 None =
     (Inl (RuntimeError ''Camera is not active''), [], 0)"
proof -
  have h: "\<not> is_active (camera_manager idle_core)" by (simp add: idle_core_def)
  from take_photo_inactive [OF h] h show ?thesis by blast
qed


section \<open>Properties of the speech engine\<close>

lemma move_simps [simp]:
  "length (calls (move k p sys)) = length (calls sys)"
  "engine (move k p sys) = engine sys"
  "speech_lock (move k p sys) = speech_lock sys"
  by (simp_all add: move_def)

lemma point_move:
  "k < length (calls sys) \<Longrightarrow> i < length (calls sys) \<Longrightarrow>
     point (calls (move k p sys) ! i) = (if i = k then p else point (calls sys ! i))"
  by (simp add: move_def nth_list_update)

lemma synthesize_flag [simp]:
  "engine_is_speaking (synthesize w se t l) = engine_is_speaking se"
  by (simp add: synthesize_def speak_pyttsx3_def speak_gtts_def Let_def)

lemma lock_invariantI:
  assumes "\<And>i. i < length (calls sys) \<Longrightarrow> holds_lock (point (calls sys ! i)) \<Longrightarrow> speech_lock sys = Some i"
    and "\<And>i. speech_lock sys = Some i \<Longrightarrow> i < length (calls sys) \<and> holds_lock (point (calls sys ! i))"
    and "\<And>i. i < length (calls sys) \<Longrightarrow> busy (point (calls sys ! i)) \<Longrightarrow> engine_is_speaking (engine sys)"
    and "\<And>i j. i < length (calls sys) \<Longrightarrow> j < length (calls sys) \<Longrightarrow>
           busy (point (calls sys ! i)) \<Longrightarrow> busy (point (calls sys ! j)) \<Longrightarrow> i = j"
    and "\<And>i. i < length (calls sys) \<Longrightarrow> point (calls sys ! i) = SetFlag \<Longrightarrow> \<not> engine_is_speaking (engine sys)"
  shows "lock_invariant sys"
  unfolding lock_invariant_def using assms by blast

lemma lock_invariantD:
  assumes "lock_invariant sys"
  shows "\<And>i. i < length (calls sys) \<Longrightarrow> holds_lock (point (calls sys ! i)) \<Longrightarrow> speech_lock sys = Some i"
    and "\<And>i. speech_lock sys = Some i \<Longrightarrow> i < length (calls sys) \<and> holds_lock (point (calls sys ! i))"
    and "\<And>i. i < length (calls sys) \<Longrightarrow> busy (point (calls sys ! i)) \<Longrightarrow> engine_is_speaking (engine sys)"
    and "\<And>i j. i < length (calls sys) \<Longrightarrow> j < length (calls sys) \<Longrightarrow>
           busy (point (calls sys ! i)) \<Longrightarrow> busy (point (calls sys ! j)) \<Longrightarrow> i = j"
    and "\<And>i. i < length (calls sys) \<Longrightarrow> point (calls sys ! i) = SetFlag \<Longrightarrow> \<not> engine_is_speaking (engine sys)"
  using assms unfolding lock_invariant_def by blast+


lemma lock_invariant_move:
  assumes inv: "lock_invariant sys" and k: "k < length (calls sys)"
    and c1: "(l' = Some k) = holds_lock p'"
    and c2: "\<And>i. i \<noteq> k \<Longrightarrow> (l' = Some i) = (speech_lock sys = Some i)"
    and c3: "(engine_is_speaking (engine sys) \<longrightarrow> engine_is_speaking e') \<or>
             (\<forall>i < length (calls sys). i \<noteq> k \<longrightarrow> \<not> busy (point (calls sys ! i)))"
    and c3': "busy p' \<longrightarrow> engine_is_speaking e'"
    and c4: "busy p' \<longrightarrow> (\<forall>i < length (calls sys). i \<noteq> k \<longrightarrow> \<not> busy (point (calls sys ! i)))"
    and c5: "(engine_is_speaking e' \<longrightarrow> engine_is_speaking (engine sys)) \<or>
             (\<forall>i < length (calls sys). i \<noteq> k \<longrightarrow> point (calls sys ! i) \<noteq> SetFlag)"
    and c5': "p' = SetFlag \<longrightarrow> \<not> engine_is_speaking e'"
  shows "lock_invariant (move k p' (sys\<lparr>engine := e', speech_lock := l'\<rparr>))"
proof -
  let ?sys = "move k p' (sys\<lparr>engine := e', speech_lock := l'\<rparr>)"
  note D = lock_invariantD [OF inv]
  have len: "length (calls ?sys) = length (calls sys)" by simp
  have eng: "engine ?sys = e'" by simp
  have lck: "speech_lock ?sys = l'" by simp
  have pk: "point (calls ?sys ! k) = p'"
    using k by (simp add: point_move)
  have po: "point (calls ?sys ! i) = point (calls sys ! i)" if "i < length (calls sys)" "i \<noteq> k" for i
    using k that by (simp add: point_move)
  show ?thesis
  proof (rule lock_invariantI)
    fix i assume i: "i < length (calls ?sys)" and h: "holds_lock (point (calls ?sys ! i))"
    show "speech_lock ?sys = Some i"
    proof (cases "i = k")
      case True
      with h pk c1 show ?thesis unfolding lck by simp
    next
      case False
      with i h po [of i] have "holds_lock (point (calls sys ! i))" by simp
      with D(1) [of i] i have "speech_lock sys = Some i" by simp
      with c2 [OF False] show ?thesis unfolding lck by simp
    qed
  next
    fix i assume l: "speech_lock ?sys = Some i"
    show "i < length (calls ?sys) \<and> holds_lock (point (calls ?sys ! i))"
    proof (cases "i = k")
      case True
      with l c1 pk k show ?thesis unfolding lck by simp
    next
      case False
      with l c2 [OF False] have "speech_lock sys = Some i" unfolding lck by simp
      with D(2) [of i] have "i < length (calls sys) \<and> holds_lock (point (calls sys ! i))" by simp
      with po [of i] False show ?thesis by simp
    qed
  next
    fix i assume i: "i < length (calls ?sys)" and b: "busy (point (calls ?sys ! i))"
    show "engine_is_speaking (engine ?sys)"
    proof (cases "i = k")
      case True
      with b pk c3' show ?thesis unfolding eng by simp
    next
      case False
      with i b po [of i] have bi: "busy (point (calls sys ! i))" by simp
      with D(3) [of i] i have "engine_is_speaking (engine sys)" by simp
      with c3 bi i False show ?thesis unfolding eng by auto
    qed
  next
    fix i j assume i: "i < length (calls ?sys)" and j: "j < length (calls ?sys)"
      and bi: "busy (point (calls ?sys ! i))" and bj: "busy (point (calls ?sys ! j))"
    show "i = j"
    proof (cases "i = k")
      case ik: True
      show ?thesis
      proof (cases "j = k")
        case True with ik show ?thesis by simp
      next
        case False
        with j bj po [of j] have "busy (point (calls sys ! j))" by simp
        moreover from ik bi pk have "busy p'" by simp
        ultimately show ?thesis using c4 j False by auto
      qed
    next
      case ik: False
      with i bi po [of i] have bi': "busy (point (calls sys ! i))" by simp
      show ?thesis
      proof (cases "j = k")
        case True
        with bj pk have "busy p'" by simp
        with c4 bi' i ik show ?thesis by auto
      next
        case False
        with j bj po [of j] have "busy (point (calls sys ! j))" by simp
        with D(4) [of i j] bi' i j show ?thesis by simp
      qed
    qed
  next
    fix i assume i: "i < length (calls ?sys)" and s: "point (calls ?sys ! i) = SetFlag"
    show "\<not> engine_is_speaking (engine ?sys)"
    proof (cases "i = k")
      case True
      with s pk c5' show ?thesis unfolding eng by simp
    next
      case False
      with i s po [of i] have si: "point (calls sys ! i) = SetFlag" by simp
      with D(5) [of i] i have "\<not> engine_is_speaking (engine sys)" by simp
      with c5 si i False show ?thesis unfolding eng by auto
    qed
  qed
qed


lemma step_outside: "\<not> k < length (calls sys) \<Longrightarrow> step w k sys = sys"
  by (simp add: step_def)

lemma step_at:
  assumes "k < length (calls sys)"
  shows "point (calls sys ! k) = Called \<Longrightarrow>
           step w k sys = move k (if text_arg (calls sys ! k) = [] then Returned else AtLock)
             (sys\<lparr>engine := (engine sys)\<lparr>received := received (engine sys) @
                       [(text_arg (calls sys ! k), language_arg (calls sys ! k))]\<rparr>,
                  speech_lock := speech_lock sys\<rparr>)"
    and "point (calls sys ! k) = AtLock \<Longrightarrow> speech_lock sys = None \<Longrightarrow>
           step w k sys = move k Check (sys\<lparr>engine := engine sys, speech_lock := Some k\<rparr>)"
    and "point (calls sys ! k) = AtLock \<Longrightarrow> speech_lock sys \<noteq> None \<Longrightarrow> step w k sys = sys"
    and "point (calls sys ! k) = Check \<Longrightarrow> engine_is_speaking (engine sys) \<Longrightarrow>
           step w k sys = move k Returned (sys\<lparr>engine := engine sys, speech_lock := None\<rparr>)"
    and "point (calls sys ! k) = Check \<Longrightarrow> \<not> engine_is_speaking (engine sys) \<Longrightarrow>
           step w k sys = move k SetFlag (sys\<lparr>engine := engine sys, speech_lock := speech_lock sys\<rparr>)"
    and "point (calls sys ! k) = SetFlag \<Longrightarrow>
           step w k sys = move k Leave
             (sys\<lparr>engine := (engine sys)\<lparr>engine_is_speaking := True\<rparr>, speech_lock := speech_lock sys\<rparr>)"
    and "point (calls sys ! k) = Leave \<Longrightarrow>
           step w k sys = move k Synth (sys\<lparr>engine := engine sys, speech_lock := None\<rparr>)"
    and "point (calls sys ! k) = Synth \<Longrightarrow>
           step w k sys = move k Finally
             (sys\<lparr>engine := synthesize w (engine sys) (text_arg (calls sys ! k)) (language_arg (calls sys ! k)),
                  speech_lock := speech_lock sys\<rparr>)"
    and "point (calls sys ! k) = Finally \<Longrightarrow>
           step w k sys = move k Returned
             (sys\<lparr>engine := (engine sys)\<lparr>engine_is_speaking := False\<rparr>, speech_lock := speech_lock sys\<rparr>)"
    and "point (calls sys ! k) = Returned \<Longrightarrow> step w k sys = sys"
  using assms by (auto simp: step_def Let_def)

lemma lock_invariant_step:
  assumes inv: "lock_invariant sys"
  shows "lock_invariant (step w k sys)"
proof (cases "k < length (calls sys)")
  case False
  with inv show ?thesis by (simp add: step_outside)
next
  case k: True
  note D = lock_invariantD [OF inv]
  note S = step_at [OF k]
  show ?thesis
  proof (cases "point (calls sys ! k)")
    case Called
    show ?thesis unfolding S(1) [OF Called]
      by (rule lock_invariant_move [OF inv k])
         (use D(2) [of k] Called in \<open>auto simp: holds_lock_def busy_def\<close>)
  next
    case AtLock
    show ?thesis
    proof (cases "speech_lock sys = None")
      case True
      show ?thesis unfolding S(2) [OF AtLock True]
        by (rule lock_invariant_move [OF inv k])
           (use True in \<open>auto simp: holds_lock_def busy_def\<close>)
    next
      case False
      with inv show ?thesis by (simp add: S(3) [OF AtLock])
    qed
  next
    case Check
    have l: "speech_lock sys = Some k" using D(1) [OF k] Check by (simp add: holds_lock_def)
    show ?thesis
    proof (cases "engine_is_speaking (engine sys)")
      case True
      show ?thesis unfolding S(4) [OF Check True]
        by (rule lock_invariant_move [OF inv k])
           (use l in \<open>auto simp: holds_lock_def busy_def\<close>)
    next
      case False
      show ?thesis unfolding S(5) [OF Check False]
        by (rule lock_invariant_move [OF inv k])
           (use l False in \<open>auto simp: holds_lock_def busy_def\<close>)
    qed
  next
    case SetFlag
    have l: "speech_lock sys = Some k" using D(1) [OF k] SetFlag by (simp add: holds_lock_def)
    have f: "\<not> engine_is_speaking (engine sys)" using D(5) [OF k SetFlag] .
    have nb: "\<forall>i < length (calls sys). i \<noteq> k \<longrightarrow> \<not> busy (point (calls sys ! i))"
      using D(3) f by blast
    have ns: "\<forall>i < length (calls sys). i \<noteq> k \<longrightarrow> point (calls sys ! i) \<noteq> SetFlag"
    proof (intro allI impI notI)
      fix i assume "i < length (calls sys)" "i \<noteq> k" "point (calls sys ! i) = SetFlag"
      with D(1) [of i] l show False by (simp add: holds_lock_def)
    qed
    show ?thesis unfolding S(6) [OF SetFlag]
      by (rule lock_invariant_move [OF inv k])
         (use l nb ns in \<open>simp_all add: holds_lock_def busy_def\<close>)
  next
    case Leave
    have l: "speech_lock sys = Some k" using D(1) [OF k] Leave by (simp add: holds_lock_def)
    have f: "engine_is_speaking (engine sys)" using D(3) [OF k] Leave by (simp add: busy_def)
    have nb: "\<forall>i < length (calls sys). i \<noteq> k \<longrightarrow> \<not> busy (point (calls sys ! i))"
      using D(4) [OF _ k] Leave by (auto simp: busy_def)
    show ?thesis unfolding S(7) [OF Leave]
      by (rule lock_invariant_move [OF inv k])
         (use l f nb in \<open>simp_all add: holds_lock_def\<close>)
  next
    case Synth
    have l: "speech_lock sys \<noteq> Some k" using D(2) [of k] Synth by (auto simp: holds_lock_def)
    have f: "engine_is_speaking (engine sys)" using D(3) [OF k] Synth by (simp add: busy_def)
    have nb: "\<forall>i < length (calls sys). i \<noteq> k \<longrightarrow> \<not> busy (point (calls sys ! i))"
      using D(4) [OF _ k] Synth by (auto simp: busy_def)
    show ?thesis unfolding S(8) [OF Synth]
      by (rule lock_invariant_move [OF inv k])
         (use l f nb in \<open>simp_all add: holds_lock_def\<close>)
  next
    case Finally
    have l: "speech_lock sys \<noteq> Some k" using D(2) [of k] Finally by (auto simp: holds_lock_def)
    have nb: "\<forall>i < length (calls sys). i \<noteq> k \<longrightarrow> \<not> busy (point (calls sys ! i))"
      using D(4) [OF _ k] Finally by (auto simp: busy_def)
    show ?thesis unfolding S(9) [OF Finally]
      by (rule lock_invariant_move [OF inv k])
         (use l nb in \<open>simp_all add: holds_lock_def busy_def\<close>)
  next
    case Returned
    with inv show ?thesis by (simp add: S(10))
  qed
qed


lemma lock_invariant_initial: "lock_invariant (initial_system etype args)"
  by (simp add: lock_invariant_def initial_system_def holds_lock_def busy_def split_beta)

lemma lock_invariant_run: "lock_invariant sys \<Longrightarrow> lock_invariant (run w schedule sys)"
  unfolding run_def
  by (induction schedule arbitrary: sys) (simp_all add: lock_invariant_step)

lemma length_le_one:
  assumes "distinct xs" and "\<And>x y. x \<in> set xs \<Longrightarrow> y \<in> set xs \<Longrightarrow> x = y"
  shows "length xs \<le> 1"
proof (cases xs)
  case Nil
  then show ?thesis by simp
next
  case (Cons a ys)
  show ?thesis
  proof (cases ys)
    case Nil
    with Cons show ?thesis by simp
  next
    case (Cons b zs)
    with \<open>xs = a # ys\<close> assms(1) have "a \<noteq> b" by simp
    moreover from Cons \<open>xs = a # ys\<close> assms(2) [of a b] have "a = b" by simp
    ultimately show ?thesis by simp
  qed
qed

lemma lock_invariant_synthesizing:
  assumes "lock_invariant sys"
  shows "length (synthesizing sys) \<le> 1"
    and "synthesizing sys \<noteq> [] \<longrightarrow> engine_is_speaking (engine sys)"
    and "\<forall>i \<in> set (guarded sys). speech_lock sys = Some i"
proof -
  note D = lock_invariantD [OF assms]
  show "length (synthesizing sys) \<le> 1"
  proof (rule length_le_one)
    show "distinct (synthesizing sys)" by (simp add: synthesizing_def)
  next
    fix x y assume "x \<in> set (synthesizing sys)" "y \<in> set (synthesizing sys)"
    then show "x = y" using D(4) [of x y] by (simp add: synthesizing_def busy_def)
  qed
  show "synthesizing sys \<noteq> [] \<longrightarrow> engine_is_speaking (engine sys)"
  proof
    assume "synthesizing sys \<noteq> []"
    then obtain i where "i \<in> set (synthesizing sys)" by (cases "synthesizing sys") auto
    then show "engine_is_speaking (engine sys)"
      using D(3) [of i] by (simp add: synthesizing_def busy_def)
  qed
  show "\<forall>i \<in> set (guarded sys). speech_lock sys = Some i"
  proof
    fix i assume "i \<in> set (guarded sys)"
    then show "speech_lock sys = Some i"
      using D(1) [of i] by (auto simp: guarded_def holds_lock_def)
  qed
qed

lemma step_dropped:
  assumes "j < length (calls sys)" "point (calls sys ! j) = Check" "engine_is_speaking (engine sys)"
  shows "point (calls (step w j sys) ! j) = Returned \<and> engine (step w j sys) = engine sys"
  using assms by (simp add: step_at(4) point_move)

text \<open>
  One call of \<open>speak\<close> scheduled alone from start to end is \<open>SpeechEngine_speak\<close>.
\<close>

lemma speak_alone:
  "engine (run w [0, 0, 0, 0, 0, 0, 0]
             \<lparr>engine = se, speech_lock = None,
              calls = [\<lparr>point = Called, text_arg = t, language_arg = l\<rparr>]\<rparr>) =
   SpeechEngine_speak w se t l"
proof (cases "t = []")
  case True
  then show ?thesis
    by (simp add: run_def step_def move_def SpeechEngine_speak_def Let_def)
next
  case t: False
  show ?thesis
  proof (cases "engine_is_speaking se")
    case True
    with t show ?thesis
      by (simp add: run_def step_def move_def SpeechEngine_speak_def Let_def)
  next
    case False
    with t show ?thesis
      by (simp add: run_def step_def move_def SpeechEngine_speak_def Let_def)
  qed
qed


text \<open>
  Claim C7. Threads call \<open>speak\<close> on a fresh engine, with any arguments and under any
  schedule of their statements. Then at every moment at most one call is inside the \<open>try\<close>
  block where audio is synthesized and played, and \<open>is_speaking\<close> is true while one is;
  a call that is at the check or at the setting of \<open>is_speaking\<close> holds the speech lock;
  and a call that finds \<open>is_speaking\<close> true at the check returns at once, leaving the
  engine (its flag and its audio) as it was.
\<close>

theorem speak_never_overlaps:
  "let sys = run w schedule (initial_system etype args)
   in length (synthesizing sys) \<le> 1 \<and>
      (synthesizing sys \<noteq> [] \<longrightarrow> engine_is_speaking (engine sys)) \<and>
      (\<forall>i \<in> set (guarded sys). speech_lock sys = Some i) \<and>
      (\<forall>j < length (calls sys).
          point (calls sys ! j) = Check \<and> engine_is_speaking (engine sys) \<longrightarrow>
            point (calls (step w j sys) ! j) = Returned \<and> engine (step w j sys) = engine sys)"
proof -
  have "lock_invariant (run w schedule (initial_system etype args))"
    by (rule lock_invariant_run [OF lock_invariant_initial])
  from lock_invariant_synthesizing [OF this] step_dropped
  show ?thesis unfolding Let_def by blast
qed

text \<open>
  The theorem at two calls: the first has reached the \<open>try\<close> block when the second comes
  to the check, and the second returns without audio.
\<close>

lemma two_calls:
  "run quiet_world [0, 0, 0, 0, 0, 1, 1] (initial_system ''pyttsx3'' [(''um'', None), (''dois'', None)]) =
     \<lparr>engine = \<lparr>engine_type = ''pyttsx3'', engine_is_speaking = True, audio = [],
                received = [(''um'', None), (''dois'', None)]\<rparr>,
      speech_lock = Some 1,
      calls = [\<lparr>point = Synth, text_arg = ''um'', language_arg = None\<rparr>,
               \<lparr>point = Check, text_arg = ''dois'', language_arg = None\<rparr>]\<rparr>"
  by (simp add: run_def step_def move_def initial_system_def Let_def)

theorem speak_never_overlaps_witness:
  "synthesizing (run quiet_world [0, 0, 0, 0, 0, 1, 1]
      (initial_system ''pyttsx3'' [(''um'', None), (''dois'', None)])) = [0] \<and>
   guarded (run quiet_world [0, 0, 0, 0, 0, 1, 1]
      (initial_system ''pyttsx3'' [(''um'', None), (''dois'', None)])) = [1] \<and>
   engine_is_speaking (engine (run quiet_world [0, 0, 0, 0, 0, 1, 1]
      (initial_system ''pyttsx3'' [(''um'', None), (''dois'', None)]))) \<and>
   speech_lock (run quiet_world [0, 0, 0, 0, 0, 1, 1]
      (initial_system ''pyttsx3'' [(''um'', None), (''dois'', None)])) = Some 1 \<and>
   point (calls (step quiet_world 1 (run quiet_world [0, 0, 0, 0, 0, 1, 1]
      (initial_system ''pyttsx3'' [(''um'', None), (''dois'', None)]))) ! 1) = Returned \<and>
   audio (engine (step quiet_world 1 (run quiet_world [0, 0, 0, 0, 0, 1, 1]
      (initial_system ''pyttsx3'' [(''um'', None), (''dois'', None)])))) = []"
proof -
  let ?sys = "run quiet_world [0, 0, 0, 0, 0, 1, 1]
      (initial_system ''pyttsx3'' [(''um'', None), (''dois'', None)])"
  have s: "synthesizing ?sys = [0]" and g: "guarded ?sys = [1]"
    and f: "engine_is_speaking (engine ?sys)" and a: "audio (engine ?sys) = []"
    and c: "(1::nat) < length (calls ?sys)" "point (calls ?sys ! 1) = Check"
    unfolding two_calls by (simp_all add: synthesizing_def guarded_def upt_rec)
  from speak_never_overlaps [of quiet_world "[0, 0, 0, 0, 0, 1, 1]" "''pyttsx3''"
         "[(''um'', None), (''dois'', None)]", unfolded Let_def] g c f
  have "speech_lock ?sys = Some 1 \<and>
        point (calls (step quiet_world 1 ?sys) ! 1) = Returned \<and>
        engine (step quiet_world 1 ?sys) = engine ?sys"
    by auto
  with s g f a show ?thesis by simp
qed


section \<open>Properties of the coordinator\<close>

lemma trigger_callback_fields [simp]:
  "ai_requests (trigger_callback n d s) = ai_requests s"
  "conversation_history (trigger_callback n d s) = conversation_history s"
  "logged (trigger_callback n d s) = logged s"
  "is_processing (trigger_callback n d s) = is_processing s"
  "is_speaking (trigger_callback n d s) = is_speaking s"
  "is_listening (trigger_callback n d s) = is_listening s"
  "current_language (trigger_callback n d s) = current_language s"
  "ai_client (trigger_callback n d s) = ai_client s"
  "speech_engine (trigger_callback n d s) = speech_engine s"
  "camera_manager (trigger_callback n d s) = camera_manager s"
  "clock (trigger_callback n d s) = clock s"
  "files (trigger_callback n d s) = files s"
  "events (trigger_callback n d s) = events s @
     [\<lparr>ev_name = n, ev_data = d,
       ev_flags = \<lparr>listening = is_listening s, speaking = is_speaking s, processing = is_processing s\<rparr>\<rparr>]"
  by (simp_all add: trigger_callback_def)

lemma synthesize_received [simp]: "received (synthesize w se t l) = received se"
  by (simp add: synthesize_def speak_pyttsx3_def speak_gtts_def Let_def)

lemma SpeechEngine_speak_received [simp]:
  "received (SpeechEngine_speak w se t l) = received se @ [(t, l)]"
  by (simp add: SpeechEngine_speak_def Let_def)

lemma speak_fields [simp]:
  "ai_requests (speak w t l s) = ai_requests s"
  "conversation_history (speak w t l s) = conversation_history s"
  "logged (speak w t l s) = logged s"
  "is_processing (speak w t l s) = is_processing s"
  "is_listening (speak w t l s) = is_listening s"
  "current_language (speak w t l s) = current_language s"
  "ai_client (speak w t l s) = ai_client s"
  "camera_manager (speak w t l s) = camera_manager s"
  "clock (speak w t l s) = clock s"
  "files (speak w t l s) = files s"
  by (simp_all add: speak_def Let_def)

lemma speak_is_speaking [simp]:
  "is_speaking (speak w t l s) = (if t = [] then is_speaking s else False)"
  by (simp add: speak_def Let_def)

lemma speak_events [simp]:
  "events (speak w t l s) = events s @
     (if t = [] then []
      else [\<lparr>ev_name = ''on_status_change'', ev_data = Text ''speaking'',
              ev_flags = \<lparr>listening = is_listening s, speaking = True, processing = is_processing s\<rparr>\<rparr>,
            \<lparr>ev_name = ''on_status_change'', ev_data = Text ''idle'',
              ev_flags = \<lparr>listening = is_listening s, speaking = False, processing = is_processing s\<rparr>\<rparr>])"
  by (simp add: speak_def Let_def)

lemma speak_received [simp]:
  "received (speech_engine (speak w t l s)) = received (speech_engine s) @
     (if t = [] then []
      else [(t, Some (case l of None \<Rightarrow> current_language s
                       | Some x \<Rightarrow> if x = [] then current_language s else x))])"
  by (simp add: speak_def Let_def)

lemma enter_command_fields [simp]:
  "ai_requests (enter_command cmd s) = ai_requests s"
  "conversation_history (enter_command cmd s) = conversation_history s @
      [\<lparr>turn_role = ''user'', turn_content = command_text cmd,
        turn_timestamp = clock s, turn_language = command_language cmd s\<rparr>]"
  "logged (enter_command cmd s) = logged s @ [Info (''Processing command: '' @ command_text cmd)]"
  "is_processing (enter_command cmd s) = True"
  "is_speaking (enter_command cmd s) = is_speaking s"
  "is_listening (enter_command cmd s) = is_listening s"
  "current_language (enter_command cmd s) = current_language s"
  "ai_client (enter_command cmd s) = ai_client s"
  "speech_engine (enter_command cmd s) = speech_engine s"
  "camera_manager (enter_command cmd s) = camera_manager s"
  "files (enter_command cmd s) = files s"
  "clock (enter_command cmd s) = Suc (clock s)"
  "events (enter_command cmd s) = events s @
     [\<lparr>ev_name = ''on_status_change'', ev_data = Text ''processing'',
       ev_flags = \<lparr>listening = is_listening s, speaking = is_speaking s, processing = True\<rparr>\<rparr>]"
  by (simp_all add: enter_command_def Let_def)


lemma handle_system_commands_dispatch:
  "handle_system_commands w c s =
     (case match_system_command (lower c) of
        None \<Rightarrow> (Inr None, s)
      | Some a \<Rightarrow> perform_system_command w a s)"
  unfolding handle_system_commands_def match_system_command_def Let_def
  by (simp only: if_distrib [where f = "case_option (Inr None, s) (\<lambda>a. perform_system_command w a s)"]
        option.case perform_system_command.simps)


lemma perform_system_command_fields [simp]:
  "ai_requests (snd (perform_system_command w a s)) = ai_requests s"
  "conversation_history (snd (perform_system_command w a s)) = conversation_history s"
  "logged (snd (perform_system_command w a s)) = logged s"
  "is_processing (snd (perform_system_command w a s)) = is_processing s"
  "is_speaking (snd (perform_system_command w a s)) = is_speaking s"
  "is_listening (snd (perform_system_command w a s)) = is_listening s"
  "ai_client (snd (perform_system_command w a s)) = ai_client s"
  "speech_engine (snd (perform_system_command w a s)) = speech_engine s"
  "events (snd (perform_system_command w a s)) = events s"
  by (cases a; simp split: prod.splits sum.splits)+

lemma handle_system_commands_fields [simp]:
  "ai_requests (snd (handle_system_commands w c s)) = ai_requests s"
  "conversation_history (snd (handle_system_commands w c s)) = conversation_history s"
  "logged (snd (handle_system_commands w c s)) = logged s"
  "is_processing (snd (handle_system_commands w c s)) = is_processing s"
  "is_speaking (snd (handle_system_commands w c s)) = is_speaking s"
  "is_listening (snd (handle_system_commands w c s)) = is_listening s"
  "ai_client (snd (handle_system_commands w c s)) = ai_client s"
  "speech_engine (snd (handle_system_commands w c s)) = speech_engine s"
  "events (snd (handle_system_commands w c s)) = events s"
  by (simp_all add: handle_system_commands_dispatch split: option.splits)

lemma perform_system_command_response:
  "fst (perform_system_command w a s) = Inr x \<Longrightarrow> \<exists>r. x = Some r \<and> r \<noteq> []"
  by (cases a) (auto split: prod.splits sum.splits)

lemma perform_system_command_raises:
  "fst (perform_system_command w a s) = Inl e \<Longrightarrow>
     a = TakePhoto \<and> current_language (snd (perform_system_command w a s)) = current_language s \<and>
     fst (take_photo w (camera_manager s) (files s) (clock s) None) = Inl e"
  by (cases a) (auto split: prod.splits sum.splits)

lemma handle_system_commands_response:
  "fst (handle_system_commands w c s) = Inr (Some r) \<Longrightarrow> r \<noteq> []"
  by (auto simp: handle_system_commands_dispatch split: option.splits
           dest: perform_system_command_response)

lemma handle_system_commands_None:
  "fst (handle_system_commands w c s) = Inr None \<longleftrightarrow> match_system_command (lower c) = None"
  by (auto simp: handle_system_commands_dispatch split: option.splits
           dest: perform_system_command_response)

lemma build_context_cong:
  "conversation_history s = conversation_history t \<Longrightarrow> build_context l s = build_context l t"
  by (simp add: build_context_def)

lemma process_with_ai_fields [simp]:
  "conversation_history (snd (process_with_ai w t l s)) = conversation_history s"
  "logged (snd (process_with_ai w t l s)) = logged s"
  "is_processing (snd (process_with_ai w t l s)) = is_processing s"
  "is_speaking (snd (process_with_ai w t l s)) = is_speaking s"
  "is_listening (snd (process_with_ai w t l s)) = is_listening s"
  "speech_engine (snd (process_with_ai w t l s)) = speech_engine s"
  "events (snd (process_with_ai w t l s)) = events s"
  "current_language (snd (process_with_ai w t l s)) = current_language s"
  "clock (snd (process_with_ai w t l s)) = clock s"
  by (simp_all add: process_with_ai_def Let_def split: option.splits)

lemma process_with_ai_requests:
  "ai_requests (snd (process_with_ai w t l s)) = ai_requests s @
     (if ai_client s = None then []
      else [(build_context l s @ [\<lparr>role = ''user'', content = t\<rparr>], l)])"
  by (simp add: process_with_ai_def Let_def split: option.splits)

text \<open>The three ways through \<open>_process_command\<close>.\<close>

lemma process_command_raise:
  assumes "fst (handle_system_commands w (command_text cmd) (enter_command cmd s)) = Inl e"
  shows "process_command w cmd s =
           process_command_finally (process_command_except w e
             (snd (handle_system_commands w (command_text cmd) (enter_command cmd s))))"
  using assms
  by (cases "handle_system_commands w (command_text cmd) (enter_command cmd s)")
     (simp add: process_command_def process_command_try_def)

lemma process_command_system:
  assumes "fst (handle_system_commands w (command_text cmd) (enter_command cmd s)) = Inr (Some r)"
  shows "process_command w cmd s =
           process_command_finally (respond w cmd (command_language cmd s) r
             (snd (handle_system_commands w (command_text cmd) (enter_command cmd s))))"
  using assms handle_system_commands_response [OF assms]
  by (cases "handle_system_commands w (command_text cmd) (enter_command cmd s)")
     (simp add: process_command_def process_command_try_def Let_def)

lemma process_command_ai:
  assumes "fst (handle_system_commands w (command_text cmd) (enter_command cmd s)) = Inr None"
  shows "process_command w cmd s =
           process_command_finally (respond w cmd (command_language cmd s)
             (fst (process_with_ai w (command_text cmd) (command_language cmd s)
                (snd (handle_system_commands w (command_text cmd) (enter_command cmd s)))))
             (snd (process_with_ai w (command_text cmd) (command_language cmd s)
                (snd (handle_system_commands w (command_text cmd) (enter_command cmd s))))))"
  using assms
  by (cases "handle_system_commands w (command_text cmd) (enter_command cmd s)")
     (simp add: process_command_def process_command_try_def Let_def split_beta)


lemma respond_fields [simp]:
  "ai_requests (respond w cmd l r s) = ai_requests s"
  "logged (respond w cmd l r s) = logged s"
  "is_processing (respond w cmd l r s) = is_processing s"
  "is_listening (respond w cmd l r s) = is_listening s"
  "is_speaking (respond w cmd l r s) = (if r = [] then is_speaking s else False)"
  "conversation_history (respond w cmd l r s) = conversation_history s @
     [\<lparr>turn_role = ''assistant'', turn_content = r, turn_timestamp = clock s, turn_language = l\<rparr>]"
  "received (speech_engine (respond w cmd l r s)) = received (speech_engine s) @
     (if r = [] then [] else [(r, Some (if l = [] then current_language s else l))])"
  by (simp_all add: respond_def Let_def)

lemma respond_events:
  "events (respond w cmd l r s) = events s @
     (if r = [] then []
      else [\<lparr>ev_name = ''on_status_change'', ev_data = Text ''speaking'',
              ev_flags = \<lparr>listening = is_listening s, speaking = True, processing = is_processing s\<rparr>\<rparr>,
            \<lparr>ev_name = ''on_status_change'', ev_data = Text ''idle'',
              ev_flags = \<lparr>listening = is_listening s, speaking = False, processing = is_processing s\<rparr>\<rparr>]) @
     [\<lparr>ev_name = ''on_command'', ev_data = Command cmd,
       ev_flags = \<lparr>listening = is_listening s, speaking = (if r = [] then is_speaking s else False),
                   processing = is_processing s\<rparr>\<rparr>,
      \<lparr>ev_name = ''on_response'', ev_data = Response r l,
       ev_flags = \<lparr>listening = is_listening s, speaking = (if r = [] then is_speaking s else False),
                   processing = is_processing s\<rparr>\<rparr>]"
  by (simp add: respond_def Let_def)

lemma process_command_finally_fields [simp]:
  "ai_requests (process_command_finally s) = ai_requests s"
  "logged (process_command_finally s) = logged s"
  "is_processing (process_command_finally s) = False"
  "is_listening (process_command_finally s) = is_listening s"
  "is_speaking (process_command_finally s) = is_speaking s"
  "conversation_history (process_command_finally s) = conversation_history s"
  "speech_engine (process_command_finally s) = speech_engine s"
  "events (process_command_finally s) = events s @
     [\<lparr>ev_name = ''on_status_change'', ev_data = Text ''idle'',
       ev_flags = \<lparr>listening = is_listening s, speaking = is_speaking s, processing = False\<rparr>\<rparr>]"
  by (simp_all add: process_command_finally_def)

lemma error_msg_nonempty [simp]: "error_msg \<noteq> []"
  by (simp add: error_msg_def)

lemma process_command_except_fields [simp]:
  "ai_requests (process_command_except w e s) = ai_requests s"
  "logged (process_command_except w e s) = logged s @ [Error (''Error processing command: '' @ str_exn e)]"
  "is_processing (process_command_except w e s) = is_processing s"
  "is_listening (process_command_except w e s) = is_listening s"
  "is_speaking (process_command_except w e s) = False"
  "conversation_history (process_command_except w e s) = conversation_history s"
  "received (speech_engine (process_command_except w e s)) =
     received (speech_engine s) @ [(error_msg, Some (current_language s))]"
  "events (process_command_except w e s) = events s @
     [\<lparr>ev_name = ''on_status_change'', ev_data = Text ''speaking'',
       ev_flags = \<lparr>listening = is_listening s, speaking = True, processing = is_processing s\<rparr>\<rparr>,
      \<lparr>ev_name = ''on_status_change'', ev_data = Text ''idle'',
       ev_flags = \<lparr>listening = is_listening s, speaking = False, processing = is_processing s\<rparr>\<rparr>,
      \<lparr>ev_name = ''on_error'', ev_data = Text (str_exn e),
       ev_flags = \<lparr>listening = is_listening s, speaking = False, processing = is_processing s\<rparr>\<rparr>]"
  by (simp_all add: process_command_except_def Let_def)


lemma recent_history_drop: "recent_history h = drop (length h - 6) h"
  by (simp add: recent_history_def)

lemma process_command_ai_requests:
  "ai_requests (process_command w cmd s) = ai_requests s @
     (if match_system_command (lower (command_text cmd)) = None \<and> ai_client s \<noteq> None
      then [(build_context (command_language cmd s) (enter_command cmd s) @
               [\<lparr>role = ''user'', content = command_text cmd\<rparr>], command_language cmd s)]
      else [])"
proof -
  let ?H = "handle_system_commands w (command_text cmd) (enter_command cmd s)"
  show ?thesis
  proof (cases "fst ?H")
    case (Inl e)
    then have "match_system_command (lower (command_text cmd)) \<noteq> None"
      using handle_system_commands_None [of w "command_text cmd" "enter_command cmd s"] by simp
    with Inl show ?thesis by (simp add: process_command_raise)
  next
    case (Inr x)
    show ?thesis
    proof (cases x)
      case None
      with Inr have n: "fst ?H = Inr None" by simp
      then have m: "match_system_command (lower (command_text cmd)) = None"
        by (simp add: handle_system_commands_None)
      have "build_context (command_language cmd s) (snd ?H) =
            build_context (command_language cmd s) (enter_command cmd s)"
        by (rule build_context_cong) simp
      with m show ?thesis
        by (simp add: process_command_ai [OF n] process_with_ai_requests)
    next
      case (Some r)
      with Inr have n: "fst ?H = Inr (Some r)" by simp
      then have "match_system_command (lower (command_text cmd)) \<noteq> None"
        using handle_system_commands_None [of w "command_text cmd" "enter_command cmd s"] by simp
      then show ?thesis by (simp add: process_command_system [OF n])
    qed
  qed
qed


lemma handle_no_match:
  "match_system_command (lower c) = None \<Longrightarrow> handle_system_commands w c s = (Inr None, s)"
  by (simp add: handle_system_commands_dispatch)

lemma handle_match:
  "match_system_command (lower c) = Some a \<Longrightarrow>
     handle_system_commands w c s = perform_system_command w a s"
  by (simp add: handle_system_commands_dispatch)

lemma process_command_try_raise:
  "process_command_try w cmd s = (Some e, s6) \<longleftrightarrow>
     handle_system_commands w (command_text cmd) (enter_command cmd s) = (Inl e, s6)"
  by (cases "handle_system_commands w (command_text cmd) (enter_command cmd s)")
     (auto simp: process_command_try_def Let_def split_beta split: sum.splits)

lemma handle_raise_language:
  assumes "handle_system_commands w c s = (Inl e, s6)"
  shows "current_language s6 = current_language s"
proof (cases "match_system_command (lower c)")
  case None
  with assms show ?thesis by (simp add: handle_no_match)
next
  case (Some a)
  with assms have p: "perform_system_command w a s = (Inl e, s6)" by (simp add: handle_match)
  then have "fst (perform_system_command w a s) = Inl e" by simp
  from perform_system_command_raises [OF this] p show ?thesis by simp
qed

lemma system_prompt_cases:
  "system_prompt language =
     \<lparr>role = ''system'',
      content = (if language = ''en-US'' then (''You are JARVIS, an intelligent virtual assistant. Be helpful, concise and friendly. Always respond in English.'')
                 else if language = ''es-ES'' then (''Eres JARVIS, un asistente virtual inteligente. S'' @ [CHR 0xE9] @ '' '' @ [CHR 0xFA] @ ''til, conciso y amigable. Responde siempre en espa'' @ [CHR 0xF1] @ ''ol.'')
                 else (''Voc'' @ [CHR 0xEA] @ '' '' @ [CHR 0xE9] @ '' JARVIS, um assistente virtual inteligente. Seja '' @ [CHR 0xFA] @ ''til, conciso e amig'' @ [CHR 0xE1] @ ''vel. Responda sempre em portugu'' @ [CHR 0xEA] @ ''s brasileiro.''))\<rparr>"
  by (simp add: system_prompt_def system_prompts_def)

lemma length_recent: "length (drop (length h - 6) h) = min 6 (length h)"
  by (simp only: length_drop)

lemma match_bonjour: "match_system_command (lower ''bonjour'') = None"
  by (simp add: match_system_command_def any_in_def camera_words_def volume_words_def
                lower_def lower_char_def lower_table_def)

text \<open>
  Claim C1, as the code has it. For every conversation history, \<open>_process_command\<close>
  calls the AI client at most once. The message list of that call starts with the system
  prompt: the English prompt for \<open>en-US\<close>, the Spanish prompt for \<open>es-ES\<close> and the
  Portuguese prompt for \<open>pt-BR\<close> and for every other language. Then come the last turns
  of the history, at most 6, of which the last is the user turn of this command; then the
  current user message once more. So the list holds at most 8 messages, however long the
  history is.
\<close>

theorem context_window:
  "let L = command_language cmd s;
       h = conversation_history s @
             [\<lparr>turn_role = ''user'', turn_content = command_text cmd,
               turn_timestamp = clock s, turn_language = L\<rparr>];
       recent = drop (length h - 6) h;
       prompt = \<lparr>role = ''system'',
                 content = (if L = ''en-US'' then (''You are JARVIS, an intelligent virtual assistant. Be helpful, concise and friendly. Always respond in English.'')
                            else if L = ''es-ES'' then (''Eres JARVIS, un asistente virtual inteligente. S'' @ [CHR 0xE9] @ '' '' @ [CHR 0xFA] @ ''til, conciso y amigable. Responde siempre en espa'' @ [CHR 0xF1] @ ''ol.'')
                            else (''Voc'' @ [CHR 0xEA] @ '' '' @ [CHR 0xE9] @ '' JARVIS, um assistente virtual inteligente. Seja '' @ [CHR 0xFA] @ ''til, conciso e amig'' @ [CHR 0xE1] @ ''vel. Responda sempre em portugu'' @ [CHR 0xEA] @ ''s brasileiro.''))\<rparr>;
       messages = [prompt] @
                  map (\<lambda>t. \<lparr>role = turn_role t, content = turn_content t\<rparr>) recent @
                  [\<lparr>role = ''user'', content = command_text cmd\<rparr>]
   in length recent = min 6 (Suc (length (conversation_history s))) \<and>
      length messages = min 6 (Suc (length (conversation_history s))) + 2 \<and>
      last recent = \<lparr>turn_role = ''user'', turn_content = command_text cmd,
                      turn_timestamp = clock s, turn_language = L\<rparr> \<and>
      ai_requests (process_command w cmd s) = ai_requests s @
        (if match_system_command (lower (command_text cmd)) = None \<and> ai_client s \<noteq> None
         then [(messages, L)] else [])"
proof -
  let ?L = "command_language cmd s"
  let ?u = "\<lparr>turn_role = ''user'', turn_content = command_text cmd,
               turn_timestamp = clock s, turn_language = ?L\<rparr>"
  let ?h = "conversation_history s @ [?u]"
  let ?f = "\<lambda>t. \<lparr>role = turn_role t, content = turn_content t\<rparr>"
  have r: "length (drop (length ?h - 6) ?h) = min 6 (Suc (length (conversation_history s)))"
    unfolding length_recent by simp
  have lt: "length ?h - 6 < length ?h" by simp
  have l: "last (drop (length ?h - 6) ?h) = ?u"
    unfolding last_drop [OF lt] by simp
  have h: "conversation_history (enter_command cmd s) = ?h" by simp
  have b: "build_context ?L (enter_command cmd s) =
             [system_prompt ?L] @ map ?f (drop (length ?h - 6) ?h)"
    unfolding build_context_def recent_history_drop h ..
  show ?thesis
    unfolding Let_def process_command_ai_requests b system_prompt_cases [symmetric]
    using r l by simp
qed


text \<open>
  The claim as stated fails for a French command after six turns: the prompt sent is the
  Portuguese one, and the list holds eight messages, the system prompt, the last six turns
  and the current user message a second time.
\<close>

theorem context_window_counterexample:
  "map (map content) (map fst (ai_requests (process_command quiet_world
        \<lparr>cmd_text = Some ''bonjour'', cmd_language = Some ''fr-FR'', cmd_timestamp = None\<rparr>
        (idle_core\<lparr>ai_client := Some \<lparr>api_key = ''key'', base_url = ''https://openrouter.ai/api/v1'',
                                     model = ''anthropic/claude-3-sonnet'', max_tokens = 1000\<rparr>,
           conversation_history :=
             [\<lparr>turn_role = ''user'', turn_content = ''un'', turn_timestamp = 0, turn_language = ''fr-FR''\<rparr>,
              \<lparr>turn_role = ''assistant'', turn_content = ''deux'', turn_timestamp = 1, turn_language = ''fr-FR''\<rparr>,
              \<lparr>turn_role = ''user'', turn_content = ''trois'', turn_timestamp = 2, turn_language = ''fr-FR''\<rparr>,
              \<lparr>turn_role = ''assistant'', turn_content = ''quatre'', turn_timestamp = 3, turn_language = ''fr-FR''\<rparr>,
              \<lparr>turn_role = ''user'', turn_content = ''cinq'', turn_timestamp = 4, turn_language = ''fr-FR''\<rparr>,
              \<lparr>turn_role = ''assistant'', turn_content = ''six'', turn_timestamp = 5, turn_language = ''fr-FR''\<rparr>],
           clock := 6\<rparr>)))) =
     [[''Voc'' @ [CHR 0xEA] @ '' '' @ [CHR 0xE9] @ '' JARVIS, um assistente virtual inteligente. Seja '' @ [CHR 0xFA] @ ''til, conciso e amig'' @ [CHR 0xE1] @ ''vel. Responda sempre em portugu'' @ [CHR 0xEA] @ ''s brasileiro.'',
       ''deux'', ''trois'', ''quatre'', ''cinq'', ''six'', ''bonjour'', ''bonjour'']] \<and>
   map snd (ai_requests (process_command quiet_world
        \<lparr>cmd_text = Some ''bonjour'', cmd_language = Some ''fr-FR'', cmd_timestamp = None\<rparr>
        (idle_core\<lparr>ai_client := Some \<lparr>api_key = ''key'', base_url = ''https://openrouter.ai/api/v1'',
                                     model = ''anthropic/claude-3-sonnet'', max_tokens = 1000\<rparr>,
           conversation_history :=
             [\<lparr>turn_role = ''user'', turn_content = ''un'', turn_timestamp = 0, turn_language = ''fr-FR''\<rparr>,
              \<lparr>turn_role = ''assistant'', turn_content = ''deux'', turn_timestamp = 1, turn_language = ''fr-FR''\<rparr>,
              \<lparr>turn_role = ''user'', turn_content = ''trois'', turn_timestamp = 2, turn_language = ''fr-FR''\<rparr>,
              \<lparr>turn_role = ''assistant'', turn_content = ''quatre'', turn_timestamp = 3, turn_language = ''fr-FR''\<rparr>,
              \<lparr>turn_role = ''user'', turn_content = ''cinq'', turn_timestamp = 4, turn_language = ''fr-FR''\<rparr>,
              \<lparr>turn_role = ''assistant'', turn_content = ''six'', turn_timestamp = 5, turn_language = ''fr-FR''\<rparr>],
           clock := 6\<rparr>))) = [''fr-FR'']"
proof -
  let ?c = "\<lparr>cmd_text = Some ''bonjour'', cmd_language = Some ''fr-FR'', cmd_timestamp = None\<rparr>"
  let ?s = "(idle_core\<lparr>ai_client := Some \<lparr>api_key = ''key'', base_url = ''https://openrouter.ai/api/v1'',
                                     model = ''anthropic/claude-3-sonnet'', max_tokens = 1000\<rparr>,
           conversation_history :=
             [\<lparr>turn_role = ''user'', turn_content = ''un'', turn_timestamp = 0, turn_language = ''fr-FR''\<rparr>,
              \<lparr>turn_role = ''assistant'', turn_content = ''deux'', turn_timestamp = 1, turn_language = ''fr-FR''\<rparr>,
              \<lparr>turn_role = ''user'', turn_content = ''trois'', turn_timestamp = 2, turn_language = ''fr-FR''\<rparr>,
              \<lparr>turn_role = ''assistant'', turn_content = ''quatre'', turn_timestamp = 3, turn_language = ''fr-FR''\<rparr>,
              \<lparr>turn_role = ''user'', turn_content = ''cinq'', turn_timestamp = 4, turn_language = ''fr-FR''\<rparr>,
              \<lparr>turn_role = ''assistant'', turn_content = ''six'', turn_timestamp = 5, turn_language = ''fr-FR''\<rparr>],
           clock := 6\<rparr>)"
  have t: "command_text ?c = ''bonjour''" by (simp add: command_text_def)
  have l: "command_language ?c ?s = ''fr-FR''" by (simp add: command_language_def)
  have a: "ai_client ?s \<noteq> None" "ai_requests ?s = []" by (simp_all add: idle_core_def)
  have p: "system_prompt ''fr-FR'' = \<lparr>role = ''system'', content = ''Voc'' @ [CHR 0xEA] @ '' '' @ [CHR 0xE9] @ '' JARVIS, um assistente virtual inteligente. Seja '' @ [CHR 0xFA] @ ''til, conciso e amig'' @ [CHR 0xE1] @ ''vel. Responda sempre em portugu'' @ [CHR 0xEA] @ ''s brasileiro.''\<rparr>"
    by (simp add: system_prompt_def system_prompts_def)
  have "ai_requests (process_command quiet_world ?c ?s) =
          [(build_context ''fr-FR'' (enter_command ?c ?s) @ [\<lparr>role = ''user'', content = ''bonjour''\<rparr>],
            ''fr-FR'')]"
    unfolding process_command_ai_requests t l using match_bonjour a by simp
  then show ?thesis
    unfolding build_context_def recent_history_def p by (simp add: t l)
qed





lemma process_command_try_fst:
  "fst (process_command_try w cmd s) =
     (case fst (handle_system_commands w (command_text cmd) (enter_command cmd s)) of
        Inl e \<Rightarrow> Some e | Inr r \<Rightarrow> None)"
  by (cases "handle_system_commands w (command_text cmd) (enter_command cmd s)")
     (auto simp: process_command_try_def Let_def split_beta split: sum.splits)

lemma handle_raise_only_photo:
  assumes "fst (handle_system_commands w c s) = Inl e"
  shows "match_system_command (lower c) = Some TakePhoto \<and>
         current_language (snd (handle_system_commands w c s)) = current_language s"
proof (cases "match_system_command (lower c)")
  case None
  with assms show ?thesis by (simp add: handle_no_match)
next
  case (Some a)
  with assms have "fst (perform_system_command w a s) = Inl e" by (simp add: handle_match)
  from perform_system_command_raises [OF this]
  have "a = TakePhoto" and "current_language (snd (perform_system_command w a s)) = current_language s"
    by blast+
  with Some show ?thesis by (simp add: handle_match del: perform_system_command.simps)
qed

text \<open>Two commands evaluated: a photo request and the request to turn the camera on.\<close>

lemmas match_eval = match_system_command_def any_in_def camera_words_def volume_words_def
                    lower_def lower_char_def lower_table_def

lemma match_tirar_foto: "match_system_command (lower ''tirar foto'') = Some TakePhoto"
  by (simp add: match_eval)

lemma match_ligar_camera:
  "match_system_command (lower (''ligar c'' @ [CHR 0xE2] @ ''mera'')) = Some CameraOn"
  by (simp add: match_eval)

lemma photo_idle:
  "handle_system_commands quiet_world ''tirar foto'' (enter_command cmd idle_core) =
     (Inl (RuntimeError ''Camera is not active''), enter_command cmd idle_core)"
proof -
  have "\<not> is_active (camera_manager (enter_command cmd idle_core))"
    by (simp add: idle_core_def)
  then show ?thesis
    by (simp add: handle_match [OF match_tirar_foto] take_photo_def)
qed

lemma camera_on_idle:
  "fst (handle_system_commands quiet_world (''ligar c'' @ [CHR 0xE2] @ ''mera'') st) =
     Inr (Some (''C'' @ [CHR 0xE2] @ ''mera ativada com sucesso.''))"
  unfolding handle_match [OF match_ligar_camera] by simp

text \<open>
  Claim C3, as the code has it. For every command text that matches a system command,
  \<open>_handle_system_commands\<close> does not return \<open>None\<close>. When it returns a response, the
  response is not empty, \<open>_process_command\<close> appends it as the assistant turn and speaks
  it, and \<open>chat_completion\<close> is not called. It raises only for the photo command (when
  \<open>take_photo\<close> fails), and \<open>chat_completion\<close> is not called then either. The AI client
  is called only when \<open>_handle_system_commands\<close> returns \<open>None\<close>.
\<close>

theorem system_command_short_circuit:
  "let H = handle_system_commands w (command_text cmd) (enter_command cmd s);
       s' = process_command w cmd s
   in (match_system_command (lower (command_text cmd)) \<noteq> None \<longrightarrow> fst H \<noteq> Inr None) \<and>
      (\<forall>r. fst H = Inr (Some r) \<longrightarrow>
         r \<noteq> [] \<and> ai_requests s' = ai_requests s \<and>
         map turn_content (conversation_history s') =
           map turn_content (conversation_history s) @ [command_text cmd, r] \<and>
         map fst (received (speech_engine s')) = map fst (received (speech_engine s)) @ [r]) \<and>
      (\<forall>e. fst H = Inl e \<longrightarrow>
         match_system_command (lower (command_text cmd)) = Some TakePhoto \<and>
         ai_requests s' = ai_requests s) \<and>
      (ai_requests s' \<noteq> ai_requests s \<longrightarrow> fst H = Inr None)"
proof -
  let ?H = "handle_system_commands w (command_text cmd) (enter_command cmd s)"
  have 1: "match_system_command (lower (command_text cmd)) \<noteq> None \<longrightarrow> fst ?H \<noteq> Inr None"
    by (simp add: handle_system_commands_None)
  have 2: "r \<noteq> [] \<and> ai_requests (process_command w cmd s) = ai_requests s \<and>
         map turn_content (conversation_history (process_command w cmd s)) =
           map turn_content (conversation_history s) @ [command_text cmd, r] \<and>
         map fst (received (speech_engine (process_command w cmd s))) =
           map fst (received (speech_engine s)) @ [r]"
    if r: "fst ?H = Inr (Some r)" for r
    using handle_system_commands_response [OF r]
    by (simp add: process_command_system [OF r])
  have 3: "match_system_command (lower (command_text cmd)) = Some TakePhoto \<and>
         ai_requests (process_command w cmd s) = ai_requests s"
    if e: "fst ?H = Inl e" for e
    using handle_raise_only_photo [OF e] by (simp add: process_command_raise [OF e])
  have 4: "ai_requests (process_command w cmd s) \<noteq> ai_requests s \<longrightarrow> fst ?H = Inr None"
    by (simp add: process_command_ai_requests handle_system_commands_None)
  from 1 2 3 4 show ?thesis unfolding Let_def by blast
qed

text \<open>The theorem at the command that turns the camera on, on the coordinator after start-up.\<close>

theorem system_command_short_circuit_witness:
  "match_system_command (lower (''ligar c'' @ [CHR 0xE2] @ ''mera'')) \<noteq> None \<and>
   fst (handle_system_commands quiet_world (''ligar c'' @ [CHR 0xE2] @ ''mera'')
          (enter_command \<lparr>cmd_text = Some (''ligar c'' @ [CHR 0xE2] @ ''mera''),
                           cmd_language = None, cmd_timestamp = None\<rparr> idle_core)) =
     Inr (Some (''C'' @ [CHR 0xE2] @ ''mera ativada com sucesso.'')) \<and>
   ai_requests (process_command quiet_world
       \<lparr>cmd_text = Some (''ligar c'' @ [CHR 0xE2] @ ''mera''), cmd_language = None, cmd_timestamp = None\<rparr>
       idle_core) = [] \<and>
   map fst (received (speech_engine (process_command quiet_world
       \<lparr>cmd_text = Some (''ligar c'' @ [CHR 0xE2] @ ''mera''), cmd_language = None, cmd_timestamp = None\<rparr>
       idle_core))) = [''C'' @ [CHR 0xE2] @ ''mera ativada com sucesso.'']"
proof -
  let ?c = "\<lparr>cmd_text = Some (''ligar c'' @ [CHR 0xE2] @ ''mera''), cmd_language = None, cmd_timestamp = None\<rparr>"
  have t: "command_text ?c = ''ligar c'' @ [CHR 0xE2] @ ''mera''" by (simp add: command_text_def)
  have h: "fst (handle_system_commands quiet_world (command_text ?c) (enter_command ?c idle_core)) =
           Inr (Some (''C'' @ [CHR 0xE2] @ ''mera ativada com sucesso.''))"
    unfolding t by (rule camera_on_idle)
  have i: "ai_requests idle_core = []" "received (speech_engine idle_core) = []"
    by (simp_all add: idle_core_def)
  from system_command_short_circuit [of quiet_world ?c idle_core, unfolded Let_def] h
  have "ai_requests (process_command quiet_world ?c idle_core) = ai_requests idle_core \<and>
        map fst (received (speech_engine (process_command quiet_world ?c idle_core))) =
          map fst (received (speech_engine idle_core)) @ [''C'' @ [CHR 0xE2] @ ''mera ativada com sucesso.'']"
    by blast
  with h match_ligar_camera show ?thesis unfolding t i by simp
qed

text \<open>
  The claim as stated fails for the photo command while the camera is off: the text matches,
  but \<open>_handle_system_commands\<close> raises instead of returning a response, and what is
  spoken is the generic error text.
\<close>

theorem system_command_response_counterexample:
  "match_system_command (lower ''tirar foto'') = Some TakePhoto \<and>
   fst (handle_system_commands quiet_world ''tirar foto''
          (enter_command \<lparr>cmd_text = Some ''tirar foto'', cmd_language = None, cmd_timestamp = None\<rparr>
             idle_core)) = Inl (RuntimeError ''Camera is not active'') \<and>
   map fst (received (speech_engine (process_command quiet_world
       \<lparr>cmd_text = Some ''tirar foto'', cmd_language = None, cmd_timestamp = None\<rparr> idle_core))) =
     [''Desculpe, ocorreu um erro ao processar seu comando.'']"
proof -
  let ?c = "\<lparr>cmd_text = Some ''tirar foto'', cmd_language = None, cmd_timestamp = None\<rparr>"
  have t: "command_text ?c = ''tirar foto''" by (simp add: command_text_def)
  have h: "fst (handle_system_commands quiet_world (command_text ?c) (enter_command ?c idle_core)) =
           Inl (RuntimeError ''Camera is not active'')"
    unfolding t by (simp add: photo_idle)
  have "map fst (received (speech_engine (process_command quiet_world ?c idle_core))) = [error_msg]"
    unfolding process_command_raise [OF h] by (simp add: idle_core_def)
  with h match_tirar_foto show ?thesis unfolding t by (simp add: error_msg_def)
qed

text \<open>
  Claim C8, as the code has it. Whenever an exception leaves the \<open>try\<close> block of
  \<open>_process_command\<close>, the call returns normally through the \<open>except\<close> and
  \<open>finally\<close> clauses: the error is logged, the fixed Portuguese error text is handed to
  the speech engine with the coordinator's current language (not the language of the
  command), \<open>on_error\<close> is fired with the text of the exception, and \<open>is_processing\<close> and
  \<open>is_speaking\<close> are cleared.
\<close>

theorem command_exception_caught:
  "fst (process_command_try w cmd s) = Some e \<Longrightarrow>
     process_command w cmd s =
       process_command_finally (process_command_except w e (snd (process_command_try w cmd s))) \<and>
     logged (process_command w cmd s) =
       logged (snd (process_command_try w cmd s)) @ [Error (''Error processing command: '' @ str_exn e)] \<and>
     received (speech_engine (process_command w cmd s)) =
       received (speech_engine s) @ [(error_msg, Some (current_language s))] \<and>
     \<lparr>ev_name = ''on_error'', ev_data = Text (str_exn e),
       ev_flags = \<lparr>listening = is_listening s, speaking = False, processing = True\<rparr>\<rparr>
       \<in> set (events (process_command w cmd s)) \<and>
     \<not> is_processing (process_command w cmd s) \<and> \<not> is_speaking (process_command w cmd s)"
proof -
  let ?H = "handle_system_commands w (command_text cmd) (enter_command cmd s)"
  assume a: "fst (process_command_try w cmd s) = Some e"
  then have h: "fst ?H = Inl e"
    by (simp add: process_command_try_fst split: sum.splits)
  then have t: "process_command_try w cmd s = (Some e, snd ?H)"
    by (cases ?H) (simp add: process_command_try_def)
  have l: "current_language (snd ?H) = current_language s"
    using handle_raise_only_photo [OF h] by simp
  show ?thesis
    unfolding process_command_raise [OF h] t by (simp add: l)
qed

text \<open>The theorem at a photo request while the camera is off.\<close>

theorem command_exception_caught_witness:
  "fst (process_command_try quiet_world
          \<lparr>cmd_text = Some ''tirar foto'', cmd_language = Some ''pt-BR'', cmd_timestamp = None\<rparr>
          idle_core) = Some (RuntimeError ''Camera is not active'') \<and>
   received (speech_engine (process_command quiet_world
          \<lparr>cmd_text = Some ''tirar foto'', cmd_language = Some ''pt-BR'', cmd_timestamp = None\<rparr>
          idle_core)) = [(error_msg, Some ''pt-BR'')] \<and>
   \<not> is_processing (process_command quiet_world
          \<lparr>cmd_text = Some ''tirar foto'', cmd_language = Some ''pt-BR'', cmd_timestamp = None\<rparr>
          idle_core)"
proof -
  let ?c = "\<lparr>cmd_text = Some ''tirar foto'', cmd_language = Some ''pt-BR'', cmd_timestamp = None\<rparr>"
  have t: "command_text ?c = ''tirar foto''" by (simp add: command_text_def)
  have e: "fst (process_command_try quiet_world ?c idle_core) = Some (RuntimeError ''Camera is not active'')"
    by (simp add: process_command_try_fst t photo_idle)
  have i: "received (speech_engine idle_core) = []" "current_language idle_core = ''pt-BR''"
    by (simp_all add: idle_core_def)
  from command_exception_caught [OF e]
  have "received (speech_engine (process_command quiet_world ?c idle_core)) =
          received (speech_engine idle_core) @ [(error_msg, Some (current_language idle_core))] \<and>
        \<not> is_processing (process_command quiet_world ?c idle_core)"
    by blast
  with e show ?thesis unfolding i by simp
qed

text \<open>
  The claim as stated fails for an English command: the error utterance is the Portuguese
  text, spoken with \<open>pt-BR\<close>, the current language of the coordinator.
\<close>

theorem localized_error_counterexample:
  "command_language \<lparr>cmd_text = Some ''tirar foto'', cmd_language = Some ''en-US'', cmd_timestamp = None\<rparr>
     idle_core = ''en-US'' \<and>
   received (speech_engine (process_command quiet_world
       \<lparr>cmd_text = Some ''tirar foto'', cmd_language = Some ''en-US'', cmd_timestamp = None\<rparr> idle_core)) =
     [(''Desculpe, ocorreu um erro ao processar seu comando.'', Some ''pt-BR'')]"
proof -
  let ?c = "\<lparr>cmd_text = Some ''tirar foto'', cmd_language = Some ''en-US'', cmd_timestamp = None\<rparr>"
  have t: "command_text ?c = ''tirar foto''" by (simp add: command_text_def)
  have h: "fst (handle_system_commands quiet_world (command_text ?c) (enter_command ?c idle_core)) =
           Inl (RuntimeError ''Camera is not active'')"
    unfolding t by (simp add: photo_idle)
  have "received (speech_engine (process_command quiet_world ?c idle_core)) =
          [(error_msg, Some ''pt-BR'')]"
    unfolding process_command_raise [OF h] t photo_idle by (simp add: idle_core_def)
  then show ?thesis by (simp add: error_msg_def command_language_def)
qed

lemma photo_camera_off:
  assumes "\<not> is_active (camera_manager st)"
  shows "handle_system_commands quiet_world ''tirar foto'' (enter_command cmd st) =
           (Inl (RuntimeError ''Camera is not active''), enter_command cmd st)"
proof -
  from assms have "\<not> is_active (camera_manager (enter_command cmd st))" by simp
  then show ?thesis
    by (simp add: handle_match [OF match_tirar_foto] take_photo_def)
qed

text \<open>
  Claim C2, as the code has it. The three flags are not exclusive. \<open>_process_command\<close>
  keeps \<open>is_processing\<close> true from its first notification to the one before its last,
  and speaks the response inside: at the notification \<open>speaking\<close> both \<open>is_processing\<close>
  and \<open>is_speaking\<close> are true. It leaves \<open>is_listening\<close> as it found it (every
  notification shows the value at entry), returns with \<open>is_processing\<close> false, and
  returns with \<open>is_speaking\<close> true only if it was true at entry. \<open>start_listening\<close>
  changes nothing when \<open>is_listening\<close> or \<open>is_speaking\<close> is true; otherwise it sets
  \<open>is_listening\<close> and leaves the other two flags, without looking at \<open>is_processing\<close>.
\<close>

theorem flags_during_command:
  "(\<forall>ev \<in> set (drop (length (events s)) (events (process_command w cmd s))).
       listening (ev_flags ev) = is_listening s \<and>
       (ev_name ev = ''on_status_change'' \<and> ev_data ev = Text ''speaking'' \<longrightarrow>
          speaking (ev_flags ev) \<and> processing (ev_flags ev))) \<and>
   (\<forall>ev \<in> set (butlast (drop (length (events s)) (events (process_command w cmd s)))).
       processing (ev_flags ev)) \<and>
   is_listening (process_command w cmd s) = is_listening s \<and>
   \<not> is_processing (process_command w cmd s) \<and>
   (is_speaking (process_command w cmd s) \<longrightarrow> is_speaking s) \<and>
   (is_listening t \<or> is_speaking t \<longrightarrow> start_listening t = t) \<and>
   (\<not> is_listening t \<and> \<not> is_speaking t \<longrightarrow>
      is_listening (start_listening t) \<and>
      is_processing (start_listening t) = is_processing t \<and>
      is_speaking (start_listening t) = is_speaking t)"
proof -
  let ?H = "handle_system_commands w (command_text cmd) (enter_command cmd s)"
  have sl: "(is_listening t \<or> is_speaking t \<longrightarrow> start_listening t = t) \<and>
   (\<not> is_listening t \<and> \<not> is_speaking t \<longrightarrow>
      is_listening (start_listening t) \<and>
      is_processing (start_listening t) = is_processing t \<and>
      is_speaking (start_listening t) = is_speaking t)"
    by (simp add: start_listening_def)
  show ?thesis
  proof (cases "fst ?H")
    case (Inl e)
    from sl show ?thesis
      unfolding process_command_raise [OF Inl] by simp
  next
    case (Inr x)
    show ?thesis
    proof (cases x)
      case None
      with Inr have n: "fst ?H = Inr None" by simp
      from sl show ?thesis
        unfolding process_command_ai [OF n] by (simp add: respond_events)
    next
      case (Some r)
      with Inr have n: "fst ?H = Inr (Some r)" by simp
      from sl show ?thesis
        unfolding process_command_system [OF n] by (simp add: respond_events)
    qed
  qed
qed


text \<open>
  The theorem at a photo request processed after \<open>start_listening\<close>: \<open>is_listening\<close>
  is true throughout, and at the second notification all three flags are true.
\<close>

theorem flags_during_command_witness:
  "map ev_flags (drop (length (events (start_listening idle_core)))
       (events (process_command quiet_world
          \<lparr>cmd_text = Some ''tirar foto'', cmd_language = None, cmd_timestamp = None\<rparr>
          (start_listening idle_core)))) =
     [\<lparr>listening = True, speaking = False, processing = True\<rparr>,
      \<lparr>listening = True, speaking = True, processing = True\<rparr>,
      \<lparr>listening = True, speaking = False, processing = True\<rparr>,
      \<lparr>listening = True, speaking = False, processing = True\<rparr>,
      \<lparr>listening = True, speaking = False, processing = False\<rparr>] \<and>
   is_listening (start_listening idle_core) \<and>
   is_listening (process_command quiet_world
       \<lparr>cmd_text = Some ''tirar foto'', cmd_language = None, cmd_timestamp = None\<rparr>
       (start_listening idle_core)) \<and>
   \<not> is_processing (process_command quiet_world
       \<lparr>cmd_text = Some ''tirar foto'', cmd_language = None, cmd_timestamp = None\<rparr>
       (start_listening idle_core))"
proof -
  let ?c = "\<lparr>cmd_text = Some ''tirar foto'', cmd_language = None, cmd_timestamp = None\<rparr>"
  let ?s = "start_listening idle_core"
  have i: "is_listening ?s" "\<not> is_speaking ?s" "\<not> is_processing ?s"
    by (simp_all add: start_listening_def idle_core_def)
  have cam: "\<not> is_active (camera_manager ?s)"
    by (simp add: start_listening_def idle_core_def)
  have t: "command_text ?c = ''tirar foto''" by (simp add: command_text_def)
  have h: "fst (handle_system_commands quiet_world (command_text ?c) (enter_command ?c ?s)) =
           Inl (RuntimeError ''Camera is not active'')"
    unfolding t by (simp add: photo_camera_off [OF cam])
  have e: "map ev_flags (drop (length (events ?s)) (events (process_command quiet_world ?c ?s))) =
     [\<lparr>listening = True, speaking = False, processing = True\<rparr>,
      \<lparr>listening = True, speaking = True, processing = True\<rparr>,
      \<lparr>listening = True, speaking = False, processing = True\<rparr>,
      \<lparr>listening = True, speaking = False, processing = True\<rparr>,
      \<lparr>listening = True, speaking = False, processing = False\<rparr>]"
    unfolding process_command_raise [OF h] using i by simp
  from flags_during_command [of ?s quiet_world ?c idle_core]
  have "is_listening (process_command quiet_world ?c ?s) = is_listening ?s \<and>
        \<not> is_processing (process_command quiet_world ?c ?s)"
    by blast
  with i e show ?thesis by blast
qed

text \<open>
  The claim as stated fails at the second notification of any answered command: the status
  \<open>speaking\<close> is announced with \<open>is_processing\<close> and \<open>is_speaking\<close> both true.
\<close>

theorem flags_exclusive_counterexample:
  "events (process_command quiet_world
       \<lparr>cmd_text = Some (''ligar c'' @ [CHR 0xE2] @ ''mera''), cmd_language = None, cmd_timestamp = None\<rparr>
       idle_core) ! 1 =
     \<lparr>ev_name = ''on_status_change'', ev_data = Text ''speaking'',
      ev_flags = \<lparr>listening = False, speaking = True, processing = True\<rparr>\<rparr>"
proof -
  let ?c = "\<lparr>cmd_text = Some (''ligar c'' @ [CHR 0xE2] @ ''mera''), cmd_language = None, cmd_timestamp = None\<rparr>"
  have t: "command_text ?c = ''ligar c'' @ [CHR 0xE2] @ ''mera''" by (simp add: command_text_def)
  have h: "fst (handle_system_commands quiet_world (command_text ?c) (enter_command ?c idle_core)) =
           Inr (Some (''C'' @ [CHR 0xE2] @ ''mera ativada com sucesso.''))"
    unfolding t by (rule camera_on_idle)
  show ?thesis
    unfolding process_command_system [OF h] by (simp add: respond_events idle_core_def)
qed


end
